theory Spec2Isabelle
  imports Main "HOL-Library.Sublist" "HOL-Library.List_Lexorder" "HOL-Library.Multiset"
begin
section \<open>Strings\<close>

text \<open>
  A Python \<^verbatim>\<open>str\<close> is a sequence of Unicode code points. A character is modelled by its
  code point, so that \<^verbatim>\<open>len\<close> counts what Python counts and the characters the renderer
  inserts (the bullet U+2022, the check mark U+2713, the ballot box U+2610) are one
  character each. Comparison of strings is Python's: lexicographic on code points.
\<close>

type_synonym pychar = nat
type_synonym pystr = "pychar list"

definition u :: "string \<Rightarrow> pystr" where
  "u s = map of_char s"

section \<open>The note store (note\_manager.py)\<close>

text \<open>
  A note is the dictionary written by \<^verbatim>\<open>create_note\<close>: five string fields.
\<close>

record Note =
  note_id :: pystr
  title :: pystr
  content :: pystr
  created_at :: pystr
  updated_at :: pystr

text \<open>
  Exceptions of the store. All of them are subclasses of Python's \<^verbatim>\<open>Exception\<close>.
\<close>

datatype exn = FileNotFoundError | JSONDecodeError | PermissionError | UnicodeDecodeError
  | OSError | ValueError

text \<open>
  The data file as \<^verbatim>\<open>load_notes\<close> meets it: either opening and parsing it raises an
  exception, or it holds the JSON array of notes that \<^verbatim>\<open>save_notes\<close> wrote.
  \<open>Faulty FileNotFoundError\<close> is the missing file, \<open>Faulty JSONDecodeError\<close> a file whose
  text is not JSON, \<open>Faulty PermissionError\<close> a file that may not be read.
\<close>

datatype disk = Faulty exn | Stored "Note list"

text \<open>
  What happens when \<^verbatim>\<open>save_notes\<close> writes: \<^verbatim>\<open>open(self.data_file, 'w')\<close> raises
  (nothing is changed); or the file is opened, which truncates it, and
  \<^verbatim>\<open>json.dump\<close> raises before the text is complete; or both succeed.
\<close>

datatype write_outcome = WriteOk | OpenFails exn | DumpFails exn

text \<open>\<^verbatim>\<open>try: body  except Exception: return dflt\<close>\<close>

definition except_Exception :: "exn + 'a \<Rightarrow> 'a \<Rightarrow> exn + 'a" where
  "except_Exception body dflt = (case body of Inl e \<Rightarrow> Inr dflt | Inr v \<Rightarrow> Inr v)"

definition load_notes :: "disk \<Rightarrow> exn + Note list" where
  "load_notes d =
     (case d of
        Stored notes \<Rightarrow> Inr notes
      | Faulty e \<Rightarrow>
          if e = FileNotFoundError \<or> e = JSONDecodeError then Inr [] else Inl e)"

text \<open>
  \<^verbatim>\<open>save_notes\<close> returns its boolean and leaves the file behind. A text cut off inside
  the JSON array is not JSON: the next load raises \<^verbatim>\<open>JSONDecodeError\<close>.
\<close>

definition save_notes :: "write_outcome \<Rightarrow> disk \<Rightarrow> Note list \<Rightarrow> bool \<times> disk" where
  "save_notes w d notes =
     (case w of
        WriteOk \<Rightarrow> (True, Stored notes)
      | OpenFails e \<Rightarrow> (False, d)
      | DumpFails e \<Rightarrow> (False, Faulty JSONDecodeError))"

text \<open>
  \<^verbatim>\<open>create_note\<close>: \<open>nid\<close> is the value of \<^verbatim>\<open>str(uuid.uuid4())\<close> and \<open>now\<close> the value of
  \<^verbatim>\<open>datetime.now().isoformat()\<close>. The result is the returned value (\<open>None\<close> is Python's
  \<^verbatim>\<open>None\<close>) and the data file afterwards.
\<close>

definition new_note :: "pystr \<Rightarrow> pystr \<Rightarrow> pystr \<Rightarrow> pystr \<Rightarrow> Note" where
  "new_note nid now t c =
     \<lparr>note_id = nid, title = t, content = c, created_at = now, updated_at = now\<rparr>"

definition create_note ::
  "write_outcome \<Rightarrow> pystr \<Rightarrow> pystr \<Rightarrow> disk \<Rightarrow> pystr \<Rightarrow> pystr \<Rightarrow> (exn + pystr option) \<times> disk" where
  "create_note w nid now d t c =
     (case load_notes d of
        Inl e \<Rightarrow> (except_Exception (Inl e) None, d)
      | Inr notes \<Rightarrow>
          (let notes' = notes @ [new_note nid now t c];
               (ok, d') = save_notes w d notes'
           in (except_Exception (Inr (if ok then Some nid else None)) None, d')))"

definition get_note :: "disk \<Rightarrow> pystr \<Rightarrow> exn + Note option" where
  "get_note d nid =
     except_Exception
       (case load_notes d of
          Inl e \<Rightarrow> Inl e
        | Inr notes \<Rightarrow> Inr (find (\<lambda>n. note_id n = nid) notes))
       None"

text \<open>
  \<^verbatim>\<open>sorted(notes, key=..., reverse=True)\<close>: Python reverses the list, sorts it stably in
  ascending order of the key and reverses the result.
\<close>

definition sorted_reverse :: "('a \<Rightarrow> 'k::linorder) \<Rightarrow> 'a list \<Rightarrow> 'a list" where
  "sorted_reverse key xs = rev (sort_key key (rev xs))"

definition get_all_notes :: "disk \<Rightarrow> exn + Note list" where
  "get_all_notes d =
     except_Exception
       (case load_notes d of
          Inl e \<Rightarrow> Inl e
        | Inr notes \<Rightarrow> Inr (sorted_reverse created_at notes))
       []"



definition delete_note :: "write_outcome \<Rightarrow> disk \<Rightarrow> pystr \<Rightarrow> (exn + bool) \<times> disk" where
  "delete_note w d nid =
     (case load_notes d of
        Inl e \<Rightarrow> (except_Exception (Inl e) False, d)
      | Inr notes \<Rightarrow>
          (let original_length = length notes;
               notes' = filter (\<lambda>n. note_id n \<noteq> nid) notes
           in if length notes' < original_length
              then (let (ok, d') = save_notes w d notes'
                    in (except_Exception (Inr ok) False, d'))
              else (except_Exception (Inr False) False, d)))"

text \<open>
  \<^verbatim>\<open>str.lower()\<close>, with the character data of Unicode 14.0. Every character but two has
  one lower-case character, given by \<open>lower_runs\<close>: an entry \<open>(lo, hi, step, tgt)\<close> maps
  the characters \<open>lo\<close>, \<open>lo + step\<close>, ... up to \<open>hi\<close> to \<open>tgt\<close>, \<open>tgt + step\<close>, ...; a
  character in no entry is its own lower case. The two others: U+0130 becomes the two
  characters U+0069 U+0307, and the capital sigma U+03A3 becomes the final sigma U+03C2
  or the small sigma U+03C3, depending on its neighbours.
\<close>

definition lower_runs :: "(nat \<times> nat \<times> nat \<times> nat) list" where
  "lower_runs =
     [(65, 90, 1, 97), (192, 214, 1, 224), (216, 222, 1, 248), (256, 302, 2, 257),
      (306, 310, 2, 307), (313, 327, 2, 314), (330, 374, 2, 331), (376, 376, 1, 255),
      (377, 381, 2, 378), (385, 385, 1, 595), (386, 388, 2, 387), (390, 390, 1, 596),
      (391, 391, 1, 392), (393, 394, 1, 598), (395, 395, 1, 396), (398, 398, 1, 477),
      (399, 399, 1, 601), (400, 400, 1, 603), (401, 401, 1, 402), (403, 403, 1, 608),
      (404, 404, 1, 611), (406, 406, 1, 617), (407, 407, 1, 616), (408, 408, 1, 409),
      (412, 412, 1, 623), (413, 413, 1, 626), (415, 415, 1, 629), (416, 420, 2, 417),
      (422, 422, 1, 640), (423, 423, 1, 424), (425, 425, 1, 643), (428, 428, 1, 429),
      (430, 430, 1, 648), (431, 431, 1, 432), (433, 434, 1, 650), (435, 437, 2, 436),
      (439, 439, 1, 658), (440, 440, 1, 441), (444, 444, 1, 445), (452, 452, 1, 454),
      (453, 453, 1, 454), (455, 455, 1, 457), (456, 456, 1, 457), (458, 458, 1, 460),
      (459, 475, 2, 460), (478, 494, 2, 479), (497, 497, 1, 499), (498, 500, 2, 499),
      (502, 502, 1, 405), (503, 503, 1, 447), (504, 542, 2, 505), (544, 544, 1, 414),
      (546, 562, 2, 547), (570, 570, 1, 11365), (571, 571, 1, 572), (573, 573, 1, 410),
      (574, 574, 1, 11366), (577, 577, 1, 578), (579, 579, 1, 384), (580, 580, 1, 649),
      (581, 581, 1, 652), (582, 590, 2, 583), (880, 882, 2, 881), (886, 886, 1, 887),
      (895, 895, 1, 1011), (902, 902, 1, 940), (904, 906, 1, 941), (908, 908, 1, 972),
      (910, 911, 1, 973), (913, 929, 1, 945), (931, 939, 1, 963), (975, 975, 1, 983),
      (984, 1006, 2, 985), (1012, 1012, 1, 952), (1015, 1015, 1, 1016),
      (1017, 1017, 1, 1010), (1018, 1018, 1, 1019), (1021, 1023, 1, 891),
      (1024, 1039, 1, 1104), (1040, 1071, 1, 1072), (1120, 1152, 2, 1121),
      (1162, 1214, 2, 1163), (1216, 1216, 1, 1231), (1217, 1229, 2, 1218),
      (1232, 1326, 2, 1233), (1329, 1366, 1, 1377), (4256, 4293, 1, 11520),
      (4295, 4295, 1, 11559), (4301, 4301, 1, 11565), (5024, 5103, 1, 43888),
      (5104, 5109, 1, 5112), (7312, 7354, 1, 4304), (7357, 7359, 1, 4349),
      (7680, 7828, 2, 7681), (7838, 7838, 1, 223), (7840, 7934, 2, 7841),
      (7944, 7951, 1, 7936), (7960, 7965, 1, 7952), (7976, 7983, 1, 7968),
      (7992, 7999, 1, 7984), (8008, 8013, 1, 8000), (8025, 8031, 2, 8017),
      (8040, 8047, 1, 8032), (8072, 8079, 1, 8064), (8088, 8095, 1, 8080),
      (8104, 8111, 1, 8096), (8120, 8121, 1, 8112), (8122, 8123, 1, 8048),
      (8124, 8124, 1, 8115), (8136, 8139, 1, 8050), (8140, 8140, 1, 8131),
      (8152, 8153, 1, 8144), (8154, 8155, 1, 8054), (8168, 8169, 1, 8160),
      (8170, 8171, 1, 8058), (8172, 8172, 1, 8165), (8184, 8185, 1, 8056),
      (8186, 8187, 1, 8060), (8188, 8188, 1, 8179), (8486, 8486, 1, 969),
      (8490, 8490, 1, 107), (8491, 8491, 1, 229), (8498, 8498, 1, 8526),
      (8544, 8559, 1, 8560), (8579, 8579, 1, 8580), (9398, 9423, 1, 9424),
      (11264, 11311, 1, 11312), (11360, 11360, 1, 11361), (11362, 11362, 1, 619),
      (11363, 11363, 1, 7549), (11364, 11364, 1, 637), (11367, 11371, 2, 11368),
      (11373, 11373, 1, 593), (11374, 11374, 1, 625), (11375, 11375, 1, 592),
      (11376, 11376, 1, 594), (11378, 11378, 1, 11379), (11381, 11381, 1, 11382),
      (11390, 11391, 1, 575), (11392, 11490, 2, 11393), (11499, 11501, 2, 11500),
      (11506, 11506, 1, 11507), (42560, 42604, 2, 42561), (42624, 42650, 2, 42625),
      (42786, 42798, 2, 42787), (42802, 42862, 2, 42803), (42873, 42875, 2, 42874),
      (42877, 42877, 1, 7545), (42878, 42886, 2, 42879), (42891, 42891, 1, 42892),
      (42893, 42893, 1, 613), (42896, 42898, 2, 42897), (42902, 42920, 2, 42903),
      (42922, 42922, 1, 614), (42923, 42923, 1, 604), (42924, 42924, 1, 609),
      (42925, 42925, 1, 620), (42926, 42926, 1, 618), (42928, 42928, 1, 670),
      (42929, 42929, 1, 647), (42930, 42930, 1, 669), (42931, 42931, 1, 43859),
      (42932, 42946, 2, 42933), (42948, 42948, 1, 42900), (42949, 42949, 1, 642),
      (42950, 42950, 1, 7566), (42951, 42953, 2, 42952), (42960, 42960, 1, 42961),
      (42966, 42968, 2, 42967), (42997, 42997, 1, 42998), (65313, 65338, 1, 65345),
      (66560, 66599, 1, 66600), (66736, 66771, 1, 66776), (66928, 66938, 1, 66967),
      (66940, 66954, 1, 66979), (66956, 66962, 1, 66995), (66964, 66965, 1, 67003),
      (68736, 68786, 1, 68800), (71840, 71871, 1, 71872), (93760, 93791, 1, 93792),
      (125184, 125217, 1, 125218)]"

fun lookup_run :: "(nat \<times> nat \<times> nat \<times> nat) list \<Rightarrow> pychar \<Rightarrow> pychar" where
  "lookup_run [] c = c"
| "lookup_run ((lo, hi, step, tgt) # runs) c =
     (if lo \<le> c \<and> c \<le> hi \<and> (c - lo) mod step = 0 then tgt + (c - lo)
      else lookup_run runs c)"

definition lower_char :: "pychar \<Rightarrow> pychar" where
  "lower_char c = lookup_run lower_runs c"

definition lower_ucs4 :: "pychar \<Rightarrow> pystr" where
  "lower_ucs4 c = (if c = 304 then [105, 775] else [lower_char c])"

text \<open>
  The capital sigma is final when, case-ignorable characters skipped, a cased character
  stands before it and none behind it. \<open>case_ignorable_ranges\<close> lists the case-ignorable
  characters as closed intervals; \<open>cased_ranges\<close> the cased characters that are not
  case-ignorable (the scan asks whether a character is cased only after it found that it
  is not case-ignorable).
\<close>

definition case_ignorable_ranges :: "(nat \<times> nat) list" where
  "case_ignorable_ranges =
     [(39, 39), (46, 46), (58, 58), (94, 94), (96, 96), (168, 168), (173, 173), (175, 175),
      (180, 180), (183, 184), (688, 879), (884, 885), (890, 890), (900, 901), (903, 903),
      (1155, 1161), (1369, 1369), (1375, 1375), (1425, 1469), (1471, 1471), (1473, 1474),
      (1476, 1477), (1479, 1479), (1524, 1524), (1536, 1541), (1552, 1562), (1564, 1564),
      (1600, 1600), (1611, 1631), (1648, 1648), (1750, 1757), (1759, 1768), (1770, 1773),
      (1807, 1807), (1809, 1809), (1840, 1866), (1958, 1968), (2027, 2037), (2042, 2042),
      (2045, 2045), (2070, 2093), (2137, 2139), (2184, 2184), (2192, 2193), (2200, 2207),
      (2249, 2306), (2362, 2362), (2364, 2364), (2369, 2376), (2381, 2381), (2385, 2391),
      (2402, 2403), (2417, 2417), (2433, 2433), (2492, 2492), (2497, 2500), (2509, 2509),
      (2530, 2531), (2558, 2558), (2561, 2562), (2620, 2620), (2625, 2626), (2631, 2632),
      (2635, 2637), (2641, 2641), (2672, 2673), (2677, 2677), (2689, 2690), (2748, 2748),
      (2753, 2757), (2759, 2760), (2765, 2765), (2786, 2787), (2810, 2815), (2817, 2817),
      (2876, 2876), (2879, 2879), (2881, 2884), (2893, 2893), (2901, 2902), (2914, 2915),
      (2946, 2946), (3008, 3008), (3021, 3021), (3072, 3072), (3076, 3076), (3132, 3132),
      (3134, 3136), (3142, 3144), (3146, 3149), (3157, 3158), (3170, 3171), (3201, 3201),
      (3260, 3260), (3263, 3263), (3270, 3270), (3276, 3277), (3298, 3299), (3328, 3329),
      (3387, 3388), (3393, 3396), (3405, 3405), (3426, 3427), (3457, 3457), (3530, 3530),
      (3538, 3540), (3542, 3542), (3633, 3633), (3636, 3642), (3654, 3662), (3761, 3761),
      (3764, 3772), (3782, 3782), (3784, 3789), (3864, 3865), (3893, 3893), (3895, 3895),
      (3897, 3897), (3953, 3966), (3968, 3972), (3974, 3975), (3981, 3991), (3993, 4028),
      (4038, 4038), (4141, 4144), (4146, 4151), (4153, 4154), (4157, 4158), (4184, 4185),
      (4190, 4192), (4209, 4212), (4226, 4226), (4229, 4230), (4237, 4237), (4253, 4253),
      (4348, 4348), (4957, 4959), (5906, 5908), (5938, 5939), (5970, 5971), (6002, 6003),
      (6068, 6069), (6071, 6077), (6086, 6086), (6089, 6099), (6103, 6103), (6109, 6109),
      (6155, 6159), (6211, 6211), (6277, 6278), (6313, 6313), (6432, 6434), (6439, 6440),
      (6450, 6450), (6457, 6459), (6679, 6680), (6683, 6683), (6742, 6742), (6744, 6750),
      (6752, 6752), (6754, 6754), (6757, 6764), (6771, 6780), (6783, 6783), (6823, 6823),
      (6832, 6862), (6912, 6915), (6964, 6964), (6966, 6970), (6972, 6972), (6978, 6978),
      (7019, 7027), (7040, 7041), (7074, 7077), (7080, 7081), (7083, 7085), (7142, 7142),
      (7144, 7145), (7149, 7149), (7151, 7153), (7212, 7219), (7222, 7223), (7288, 7293),
      (7376, 7378), (7380, 7392), (7394, 7400), (7405, 7405), (7412, 7412), (7416, 7417),
      (7468, 7530), (7544, 7544), (7579, 7679), (8125, 8125), (8127, 8129), (8141, 8143),
      (8157, 8159), (8173, 8175), (8189, 8190), (8203, 8207), (8216, 8217), (8228, 8228),
      (8231, 8231), (8234, 8238), (8288, 8292), (8294, 8303), (8305, 8305), (8319, 8319),
      (8336, 8348), (8400, 8432), (11388, 11389), (11503, 11505), (11631, 11631),
      (11647, 11647), (11744, 11775), (11823, 11823), (12293, 12293), (12330, 12333),
      (12337, 12341), (12347, 12347), (12441, 12446), (12540, 12542), (40981, 40981),
      (42232, 42237), (42508, 42508), (42607, 42610), (42612, 42621), (42623, 42623),
      (42652, 42655), (42736, 42737), (42752, 42785), (42864, 42864), (42888, 42890),
      (42994, 42996), (43000, 43001), (43010, 43010), (43014, 43014), (43019, 43019),
      (43045, 43046), (43052, 43052), (43204, 43205), (43232, 43249), (43263, 43263),
      (43302, 43309), (43335, 43345), (43392, 43394), (43443, 43443), (43446, 43449),
      (43452, 43453), (43471, 43471), (43493, 43494), (43561, 43566), (43569, 43570),
      (43573, 43574), (43587, 43587), (43596, 43596), (43632, 43632), (43644, 43644),
      (43696, 43696), (43698, 43700), (43703, 43704), (43710, 43711), (43713, 43713),
      (43741, 43741), (43756, 43757), (43763, 43764), (43766, 43766), (43867, 43871),
      (43881, 43883), (44005, 44005), (44008, 44008), (44013, 44013), (64286, 64286),
      (64434, 64450), (65024, 65039), (65043, 65043), (65056, 65071), (65106, 65106),
      (65109, 65109), (65279, 65279), (65287, 65287), (65294, 65294), (65306, 65306),
      (65342, 65342), (65344, 65344), (65392, 65392), (65438, 65439), (65507, 65507),
      (65529, 65531), (66045, 66045), (66272, 66272), (66422, 66426), (67456, 67461),
      (67463, 67504), (67506, 67514), (68097, 68099), (68101, 68102), (68108, 68111),
      (68152, 68154), (68159, 68159), (68325, 68326), (68900, 68903), (69291, 69292),
      (69446, 69456), (69506, 69509), (69633, 69633), (69688, 69702), (69744, 69744),
      (69747, 69748), (69759, 69761), (69811, 69814), (69817, 69818), (69821, 69821),
      (69826, 69826), (69837, 69837), (69888, 69890), (69927, 69931), (69933, 69940),
      (70003, 70003), (70016, 70017), (70070, 70078), (70089, 70092), (70095, 70095),
      (70191, 70193), (70196, 70196), (70198, 70199), (70206, 70206), (70367, 70367),
      (70371, 70378), (70400, 70401), (70459, 70460), (70464, 70464), (70502, 70508),
      (70512, 70516), (70712, 70719), (70722, 70724), (70726, 70726), (70750, 70750),
      (70835, 70840), (70842, 70842), (70847, 70848), (70850, 70851), (71090, 71093),
      (71100, 71101), (71103, 71104), (71132, 71133), (71219, 71226), (71229, 71229),
      (71231, 71232), (71339, 71339), (71341, 71341), (71344, 71349), (71351, 71351),
      (71453, 71455), (71458, 71461), (71463, 71467), (71727, 71735), (71737, 71738),
      (71995, 71996), (71998, 71998), (72003, 72003), (72148, 72151), (72154, 72155),
      (72160, 72160), (72193, 72202), (72243, 72248), (72251, 72254), (72263, 72263),
      (72273, 72278), (72281, 72283), (72330, 72342), (72344, 72345), (72752, 72758),
      (72760, 72765), (72767, 72767), (72850, 72871), (72874, 72880), (72882, 72883),
      (72885, 72886), (73009, 73014), (73018, 73018), (73020, 73021), (73023, 73029),
      (73031, 73031), (73104, 73105), (73109, 73109), (73111, 73111), (73459, 73460),
      (78896, 78904), (92912, 92916), (92976, 92982), (92992, 92995), (94031, 94031),
      (94095, 94111), (94176, 94177), (94179, 94180), (110576, 110579), (110581, 110587),
      (110589, 110590), (113821, 113822), (113824, 113827), (118528, 118573),
      (118576, 118598), (119143, 119145), (119155, 119170), (119173, 119179),
      (119210, 119213), (119362, 119364), (121344, 121398), (121403, 121452),
      (121461, 121461), (121476, 121476), (121499, 121503), (121505, 121519),
      (122880, 122886), (122888, 122904), (122907, 122913), (122915, 122916),
      (122918, 122922), (123184, 123197), (123566, 123566), (123628, 123631),
      (125136, 125142), (125252, 125259), (127995, 127999), (917505, 917505),
      (917536, 917631), (917760, 917999)]"

definition cased_ranges :: "(nat \<times> nat) list" where
  "cased_ranges =
     [(65, 90), (97, 122), (170, 170), (181, 181), (186, 186), (192, 214), (216, 246),
      (248, 442), (444, 447), (452, 659), (661, 687), (880, 883), (886, 887), (891, 893),
      (895, 895), (902, 902), (904, 906), (908, 908), (910, 929), (931, 1013),
      (1015, 1153), (1162, 1327), (1329, 1366), (1376, 1416), (4256, 4293), (4295, 4295),
      (4301, 4301), (4304, 4346), (4349, 4351), (5024, 5109), (5112, 5117), (7296, 7304),
      (7312, 7354), (7357, 7359), (7424, 7467), (7531, 7543), (7545, 7578), (7680, 7957),
      (7960, 7965), (7968, 8005), (8008, 8013), (8016, 8023), (8025, 8025), (8027, 8027),
      (8029, 8029), (8031, 8061), (8064, 8116), (8118, 8124), (8126, 8126), (8130, 8132),
      (8134, 8140), (8144, 8147), (8150, 8155), (8160, 8172), (8178, 8180), (8182, 8188),
      (8450, 8450), (8455, 8455), (8458, 8467), (8469, 8469), (8473, 8477), (8484, 8484),
      (8486, 8486), (8488, 8488), (8490, 8493), (8495, 8500), (8505, 8505), (8508, 8511),
      (8517, 8521), (8526, 8526), (8544, 8575), (8579, 8580), (9398, 9449), (11264, 11387),
      (11390, 11492), (11499, 11502), (11506, 11507), (11520, 11557), (11559, 11559),
      (11565, 11565), (42560, 42605), (42624, 42651), (42786, 42863), (42865, 42887),
      (42891, 42894), (42896, 42954), (42960, 42961), (42963, 42963), (42965, 42969),
      (42997, 42998), (43002, 43002), (43824, 43866), (43872, 43880), (43888, 43967),
      (64256, 64262), (64275, 64279), (65313, 65338), (65345, 65370), (66560, 66639),
      (66736, 66771), (66776, 66811), (66928, 66938), (66940, 66954), (66956, 66962),
      (66964, 66965), (66967, 66977), (66979, 66993), (66995, 67001), (67003, 67004),
      (68736, 68786), (68800, 68850), (71840, 71903), (93760, 93823), (119808, 119892),
      (119894, 119964), (119966, 119967), (119970, 119970), (119973, 119974),
      (119977, 119980), (119982, 119993), (119995, 119995), (119997, 120003),
      (120005, 120069), (120071, 120074), (120077, 120084), (120086, 120092),
      (120094, 120121), (120123, 120126), (120128, 120132), (120134, 120134),
      (120138, 120144), (120146, 120485), (120488, 120512), (120514, 120538),
      (120540, 120570), (120572, 120596), (120598, 120628), (120630, 120654),
      (120656, 120686), (120688, 120712), (120714, 120744), (120746, 120770),
      (120772, 120779), (122624, 122633), (122635, 122654), (125184, 125251),
      (127280, 127305), (127312, 127337), (127344, 127369)]"

definition in_ranges :: "(nat \<times> nat) list \<Rightarrow> pychar \<Rightarrow> bool" where
  "in_ranges rs c = list_ex (\<lambda>(lo, hi). lo \<le> c \<and> c \<le> hi) rs"

definition case_ignorable :: "pychar \<Rightarrow> bool" where
  "case_ignorable c = in_ranges case_ignorable_ranges c"

definition cased :: "pychar \<Rightarrow> bool" where
  "cased c = in_ranges cased_ranges c"

text \<open>
  \<open>before\<close> holds the characters in front of the sigma, the nearest first; \<open>after\<close> the
  characters behind it.
\<close>

definition handle_capital_sigma :: "pystr \<Rightarrow> pystr \<Rightarrow> pychar" where
  "handle_capital_sigma before after =
     (let final_sigma =
            (case dropWhile case_ignorable before of
               [] \<Rightarrow> False
             | c # cs \<Rightarrow>
                 cased c \<and>
                 (case dropWhile case_ignorable after of
                    [] \<Rightarrow> True
                  | c' # cs' \<Rightarrow> \<not> cased c'))
      in if final_sigma then 962 else 963)"

fun do_lower :: "pystr \<Rightarrow> pystr \<Rightarrow> pystr" where
  "do_lower before [] = []"
| "do_lower before (c # cs) =
     (if c = 931 then [handle_capital_sigma before cs] else lower_ucs4 c)
     @ do_lower (c # before) cs"

definition lower :: "pystr \<Rightarrow> pystr" where
  "lower s = do_lower [] s"

text \<open>\<^verbatim>\<open>a in b\<close> on strings is the substring test.\<close>

fun py_in :: "pystr \<Rightarrow> pystr \<Rightarrow> bool" where
  "py_in q [] = (q = [])"
| "py_in q (c # cs) = (prefix q (c # cs) \<or> py_in q cs)"

definition search_notes :: "disk \<Rightarrow> pystr \<Rightarrow> exn + Note list" where
  "search_notes d query =
     except_Exception
       (case get_all_notes d of
          Inl e \<Rightarrow> Inl e
        | Inr notes \<Rightarrow>
            (let query' = lower query
             in Inr (filter (\<lambda>n. py_in query' (lower (title n)) \<or> py_in query' (lower (content n)))
                       notes)))
       []"

definition get_notes_count :: "disk \<Rightarrow> exn + nat" where
  "get_notes_count d =
     except_Exception
       (case load_notes d of
          Inl e \<Rightarrow> Inl e
        | Inr notes \<Rightarrow> Inr (length notes))
       0"

text \<open>
  The collection a call works on: what \<^verbatim>\<open>load_notes\<close> returns, and nothing when it raises.
\<close>

definition stored :: "disk \<Rightarrow> Note list" where
  "stored d = (case load_notes d of Inl e \<Rightarrow> [] | Inr notes \<Rightarrow> notes)"

text \<open>
  Readings of ``contains the query as a substring, letter case ignored'': \<open>q\<close> occurs in
  \<open>s\<close> at some position, the characters compared one by one. \<open>ci_eq\<close> compares two
  characters by their lower-case characters. \<open>same_letter\<close> is written out for the
  characters below U+0100 (ASCII and Latin-1) without any reference to \<open>lower_char\<close>:
  two characters are the same letter when they are equal or one is a capital letter
  (A to Z, or U+00C0 to U+00DE other than the multiplication sign U+00D7) and the other
  the character 32 places behind it.
\<close>

definition ci_eq :: "pychar \<Rightarrow> pychar \<Rightarrow> bool" where
  "ci_eq a b = (lower_char a = lower_char b)"

definition ci_substring :: "pystr \<Rightarrow> pystr \<Rightarrow> bool" where
  "ci_substring q s =
     list_ex (\<lambda>k. list_all2 ci_eq q (take (length q) (drop k s))) [0..<Suc (length s)]"

definition capital :: "pychar \<Rightarrow> bool" where
  "capital c = ((65 \<le> c \<and> c \<le> 90) \<or> (192 \<le> c \<and> c \<le> 222 \<and> c \<noteq> 215))"

definition same_letter :: "pychar \<Rightarrow> pychar \<Rightarrow> bool" where
  "same_letter a b = (a = b \<or> (capital a \<and> b = a + 32) \<or> (capital b \<and> a = b + 32))"

definition same_letter_substring :: "pystr \<Rightarrow> pystr \<Rightarrow> bool" where
  "same_letter_substring q s =
     list_ex (\<lambda>k. list_all2 same_letter q (take (length q) (drop k s))) [0..<Suc (length s)]"

text \<open>
  \<open>latin1\<close>: every character of the text is below U+0100. \<open>plain_case\<close>: the text holds
  neither U+0130 nor the capital sigma U+03A3, the two characters that \<^verbatim>\<open>str.lower()\<close>
  does not map one to one.
\<close>

definition latin1 :: "pystr \<Rightarrow> bool" where
  "latin1 s = list_all (\<lambda>c. c < 256) s"

definition plain_case :: "pystr \<Rightarrow> bool" where
  "plain_case s = list_all (\<lambda>c. c \<noteq> 304 \<and> c \<noteq> 931) s"

text \<open>Two notes used in the examples.\<close>

definition n1 :: Note where
  "n1 = \<lparr>note_id = u ''a1'', title = u ''Greeting'', content = u ''say hello'',
          created_at = u ''2024-01-01T10:00:00'', updated_at = u ''2024-01-01T10:00:00''\<rparr>"

definition n2 :: Note where
  "n2 = \<lparr>note_id = u ''b2'', title = u ''Shopping'', content = u ''milk'',
          created_at = u ''2024-01-02T09:30:00.250000'',
          updated_at = u ''2024-01-02T09:30:00.250000''\<rparr>"

text \<open>
  Two notes with letters beyond ASCII: the content of \<open>n3\<close> is the French word for
  school in small letters (U+00E9 c o l e), that of \<open>n4\<close> the Greek word for street in
  capitals (U+039F U+0394 U+039F U+03A3).
\<close>

definition n3 :: Note where
  "n3 = \<lparr>note_id = u ''c3'', title = u ''Lesson'', content = [233, 99, 111, 108, 101],
          created_at = u ''2024-01-03T08:00:00'', updated_at = u ''2024-01-03T08:00:00''\<rparr>"

definition n4 :: Note where
  "n4 = \<lparr>note_id = u ''d4'', title = u ''Street'', content = [927, 916, 927, 931],
          created_at = u ''2024-01-04T08:00:00'', updated_at = u ''2024-01-04T08:00:00''\<rparr>"

section \<open>The markdown renderer (pdf\_generator.py, clean\_content)\<close>

subsection \<open>String operations of Python\<close>

text \<open>
  \<^verbatim>\<open>re.sub(pattern, repl, s)\<close> for a pattern that looks at nothing before the position
  it starts at and never matches the empty string. The matcher \<open>m\<close> is given the text
  from the current position on and answers with the length of the match there and its
  replacement. The scan goes from left to right: a match is replaced and the scan goes on
  behind it; where nothing matches, the character is copied.
\<close>

function regex_sub :: "(pystr \<Rightarrow> (nat \<times> pystr) option) \<Rightarrow> pystr \<Rightarrow> pystr" where
  "regex_sub m [] = []"
| "regex_sub m (c # cs) =
     (case m (c # cs) of
        Some (n, repl) \<Rightarrow> repl @ regex_sub m (drop (n - 1) cs)
      | None \<Rightarrow> c # regex_sub m cs)"
  by pat_completeness auto
termination
  by (relation "measure (\<lambda>(m, s). length s)") auto

text \<open>\<^verbatim>\<open>s.replace(old, new)\<close> and \<^verbatim>\<open>s.split(sep)\<close>, \<^verbatim>\<open>sep.join(xs)\<close>, for non-empty \<open>old\<close> and \<open>sep\<close>.\<close>

definition py_replace :: "pystr \<Rightarrow> pystr \<Rightarrow> pystr \<Rightarrow> pystr" where
  "py_replace old new s =
     regex_sub (\<lambda>t. if old \<noteq> [] \<and> prefix old t then Some (length old, new) else None) s"

function py_split :: "pystr \<Rightarrow> pystr \<Rightarrow> pystr list" where
  "py_split sep [] = [[]]"
| "py_split sep (c # cs) =
     (if sep \<noteq> [] \<and> prefix sep (c # cs)
      then [] # py_split sep (drop (length sep - 1) cs)
      else (case py_split sep cs of
              p # ps \<Rightarrow> (c # p) # ps
            | [] \<Rightarrow> [[c]]))"
  by pat_completeness auto
termination
  by (relation "measure (\<lambda>(sep, s). length s)") auto

fun py_join :: "pystr \<Rightarrow> pystr list \<Rightarrow> pystr" where
  "py_join sep [] = []"
| "py_join sep [x] = x"
| "py_join sep (x # y # ys) = x @ sep @ py_join sep (y # ys)"

text \<open>
  \<^verbatim>\<open>str.strip()\<close> removes the white space of Unicode at both ends;
  \<^verbatim>\<open>str.isspace\<close> holds of exactly these code points.
\<close>

definition py_isspace :: "pychar \<Rightarrow> bool" where
  "py_isspace c \<longleftrightarrow>
     (9 \<le> c \<and> c \<le> 13) \<or> (28 \<le> c \<and> c \<le> 32) \<or> c = 133 \<or> c = 160 \<or> c = 5760
     \<or> (8192 \<le> c \<and> c \<le> 8202) \<or> c = 8232 \<or> c = 8233 \<or> c = 8239 \<or> c = 8287
     \<or> c = 12288"

definition py_strip :: "pystr \<Rightarrow> pystr" where
  "py_strip s = rev (dropWhile py_isspace (rev (dropWhile py_isspace s)))"

text \<open>
  \<^verbatim>\<open>\d\<close> in a pattern on \<^verbatim>\<open>str\<close> matches the decimal digits of Unicode: runs of ten
  characters starting at the zeros listed here, and the fifty mathematical digits from
  U+1D7CE on.
\<close>

definition decimal_zeros :: "pychar list" where
  "decimal_zeros =
     [48, 1632, 1776, 1984, 2406, 2534, 2662, 2790, 2918, 3046, 3174, 3302, 3430, 3558,
      3664, 3792, 3872, 4160, 4240, 6112, 6160, 6470, 6608, 6784, 6800, 6992, 7088, 7232,
      7248, 42528, 43216, 43264, 43472, 43504, 43600, 44016, 65296, 66720, 68912, 69734,
      69872, 69942, 70096, 70384, 70736, 70864, 71248, 71360, 71472, 71904, 72016, 72784,
      73040, 73120, 92768, 92864, 93008, 123200, 123632, 125264, 130032]"

definition py_isdecimal :: "pychar \<Rightarrow> bool" where
  "py_isdecimal c \<longleftrightarrow>
     list_ex (\<lambda>z. z \<le> c \<and> c < z + 10) decimal_zeros \<or> (120782 \<le> c \<and> c < 120832)"

text \<open>
  A pattern anchored with \<^verbatim>\<open>^\<close> under \<^verbatim>\<open>re.MULTILINE\<close> is tried at the start of the text
  and behind every newline, and neither \<^verbatim>\<open>.\<close> nor \<^verbatim>\<open>$\<close> goes past a newline: the
  substitution rewrites the lines of the text one by one.
\<close>

definition sub_lines :: "(pystr \<Rightarrow> pystr) \<Rightarrow> pystr \<Rightarrow> pystr" where
  "sub_lines f s = py_join [10] (map f (py_split [10] s))"

text \<open>
  The position of the first occurrence of \<open>d\<close> in \<open>s\<close>: \<open>find_on_line\<close> with no newline
  before it (what a lazy \<^verbatim>\<open>.*?\<close> followed by the literal \<open>d\<close> finds), \<open>find_sub\<close> with
  any characters before it (a lazy \<^verbatim>\<open>[\s\S]*?\<close>).
\<close>

fun find_on_line :: "pystr \<Rightarrow> pystr \<Rightarrow> nat option" where
  "find_on_line d [] = None"
| "find_on_line d (c # cs) =
     (if prefix d (c # cs) then Some 0
      else if c = 10 then None
      else map_option Suc (find_on_line d cs))"

fun find_sub :: "pystr \<Rightarrow> pystr \<Rightarrow> nat option" where
  "find_sub d [] = None"
| "find_sub d (c # cs) =
     (if prefix d (c # cs) then Some 0 else map_option Suc (find_sub d cs))"

subsection \<open>The substitutions of clean\_content, in the order of the source\<close>

text \<open>
  \<^verbatim>\<open>^### (.*?)$\<close>, \<^verbatim>\<open>^## (.*?)$\<close>, \<^verbatim>\<open>^# (.*?)$\<close> with
  \<^verbatim>\<open><b><font size="N">\1</font></b>\<close>, and \<^verbatim>\<open>^> (.*?)$\<close>, on one line: a line that
  starts with the marker is replaced by its rest between the two tags.
\<close>

definition wrap_line :: "pystr \<Rightarrow> pystr \<Rightarrow> pystr \<Rightarrow> pystr \<Rightarrow> pystr" where
  "wrap_line marker l r line =
     (if prefix marker line then l @ drop (length marker) line @ r else line)"

definition heading :: "pystr \<Rightarrow> pystr \<Rightarrow> pystr \<Rightarrow> pystr" where
  "heading marker sz line =
     wrap_line marker (u ''<b><font size=\"'' @ sz @ u ''\">'') (u ''</font></b>'') line"

text \<open>
  \<^verbatim>\<open>\*\*(.*?)\*\*\<close>, \<^verbatim>\<open>\*(.*?)\*\<close>, \<^verbatim>\<open>~~(.*?)~~\<close>: the delimiter, then the shortest run of
  characters other than newline that is followed by the delimiter. The run may be empty.
\<close>

definition span_match :: "pystr \<Rightarrow> pystr \<Rightarrow> pystr \<Rightarrow> pystr \<Rightarrow> (nat \<times> pystr) option" where
  "span_match d l r s =
     (if prefix d s
      then (case find_on_line d (drop (length d) s) of
              Some k \<Rightarrow> Some (2 * length d + k, l @ take k (drop (length d) s) @ r)
            | None \<Rightarrow> None)
      else None)"

text \<open>
  \<^verbatim>\<open>`([^`]+)`\<close>: a backquote, one or more characters other than a backquote (newlines
  too), a backquote.
\<close>

definition inline_code_match :: "pystr \<Rightarrow> (nat \<times> pystr) option" where
  "inline_code_match s =
     (case s of
        [] \<Rightarrow> None
      | c # cs \<Rightarrow>
          (let run = takeWhile (\<lambda>x. x \<noteq> 96) cs
           in if c = 96 \<and> run \<noteq> [] \<and> drop (length run) cs \<noteq> []
              then Some (length run + 2, u ''<font face=\"Courier\">'' @ run @ u ''</font>'')
              else None))"

text \<open>
  \<^verbatim>\<open>^\\<bullet> \<close>, \<^verbatim>\<open>^- \<close>, \<^verbatim>\<open>^- \[x\] (.*?)$\<close>, \<^verbatim>\<open>^- \[ \] (.*?)$\<close> on one line: the marker at the start
  of the line is replaced. The bullet is U+2022, the check mark U+2713, the box U+2610.
\<close>

definition replace_prefix :: "pystr \<Rightarrow> pystr \<Rightarrow> pystr \<Rightarrow> pystr" where
  "replace_prefix marker new line =
     (if prefix marker line then new @ drop (length marker) line else line)"

definition bullet :: pystr where
  "bullet = [8226, 32]"

text \<open>\<^verbatim>\<open>^\d+\. \<close> on one line: digits, a full stop and a space become a bullet.\<close>

definition numbered :: "pystr \<Rightarrow> pystr" where
  "numbered line =
     (let digits = takeWhile py_isdecimal line
      in if digits \<noteq> [] \<and> prefix (u ''. '') (drop (length digits) line)
         then bullet @ drop (length digits + 2) line
         else line)"

text \<open>
  \<^verbatim>\<open>replace_code_block\<close>, called on the whole match of \<^verbatim>\<open>```[\s\S]*?```\<close>: a fence, the
  shortest run of any characters that is followed by a fence, and that fence.
\<close>

definition replace_code_block :: "pystr \<Rightarrow> pystr" where
  "replace_code_block group0 =
     (let code_content = py_strip (py_replace (u ''```'') [] group0);
          code_content = (if length code_content > 100
                          then take 100 code_content @ u ''...''
                          else code_content)
      in u ''<font face=\"Courier\" size=\"9\">'' @ code_content @ u ''</font>'')"

definition code_block_match :: "pystr \<Rightarrow> (nat \<times> pystr) option" where
  "code_block_match s =
     (if prefix (u ''```'') s
      then (case find_sub (u ''```'') (drop 3 s) of
              Some k \<Rightarrow> Some (k + 6, replace_code_block (take (k + 6) s))
            | None \<Rightarrow> None)
      else None)"

text \<open>
  \<^verbatim>\<open>replace_table\<close>, called on the whole match of
  \<^verbatim>\<open>\|.*?\|[\s\S]*?(?=\n\n|\n[^|]|\Z)\<close>: a bar, the next bar on the same line, and then
  the shortest run of any characters up to the end of the text or to a newline that is
  followed by a character other than a bar. \<open>table_tail\<close> is the length of that run.
\<close>

fun table_tail :: "pystr \<Rightarrow> nat" where
  "table_tail [] = 0"
| "table_tail (c # cs) =
     (if c = 10 \<and> (case cs of [] \<Rightarrow> False | x # xs \<Rightarrow> x \<noteq> 124) then 0
      else Suc (table_tail cs))"

definition table_row :: "pystr \<Rightarrow> pystr list" where
  "table_row line =
     (if 124 \<in> set line \<and> \<not> prefix (u ''|--'') (py_strip line)
      then (let cells = filter (\<lambda>cell. cell \<noteq> []) (map py_strip (py_split [124] line))
            in if cells \<noteq> [] then [py_join [32, 8226, 32] cells] else [])
      else [])"

definition replace_table :: "pystr \<Rightarrow> pystr" where
  "replace_table table_text =
     py_join (u ''<br/>'') (concat (map table_row (py_split [10] table_text)))"

definition table_match :: "pystr \<Rightarrow> (nat \<times> pystr) option" where
  "table_match s =
     (case s of
        [] \<Rightarrow> None
      | c # cs \<Rightarrow>
          if c = 124
          then (case find_on_line [124] cs of
                  Some k \<Rightarrow>
                    (let n = k + 2 + table_tail (drop (k + 1) cs)
                     in Some (n, replace_table (take n s)))
                | None \<Rightarrow> None)
          else None)"

text \<open>\<^verbatim>\<open>^---+$\<close> on one line: a line of three or more hyphens becomes fifty underscores.\<close>

definition hrule :: "pystr \<Rightarrow> pystr" where
  "hrule line =
     (if 3 \<le> length line \<and> list_all (\<lambda>c. c = 45) line then replicate 50 95 else line)"

text \<open>
  \<^verbatim>\<open>\[(.*?)\]\(.*?\)\<close> with \<^verbatim>\<open>\1\<close>: an opening bracket, the text up to the first \<^verbatim>\<open>](\<close> on
  the line, and the rest up to the next closing parenthesis on the line. When no
  parenthesis closes behind the first \<^verbatim>\<open>](\<close>, none closes behind a later one on that line
  either, so backtracking finds nothing more.
\<close>

definition link_match :: "pystr \<Rightarrow> (nat \<times> pystr) option" where
  "link_match s =
     (case s of
        [] \<Rightarrow> None
      | c # cs \<Rightarrow>
          if c = 91
          then (case find_on_line (u '']('') cs of
                  Some k \<Rightarrow>
                    (case find_on_line [41] (drop (k + 2) cs) of
                       Some m \<Rightarrow> Some (k + m + 4, take k cs)
                     | None \<Rightarrow> None)
                | None \<Rightarrow> None)
          else None)"

definition clean_content :: "pystr \<Rightarrow> pystr" where
  "clean_content content0 =
     (let content = sub_lines (heading (u ''### '') (u ''12'')) content0;
          content = sub_lines (heading (u ''## '') (u ''14'')) content;
          content = sub_lines (heading (u ''# '') (u ''16'')) content;
          content = regex_sub (span_match (u ''**'') (u ''<b>'') (u ''</b>'')) content;
          content = regex_sub (span_match (u ''*'') (u ''<i>'') (u ''</i>'')) content;
          content = regex_sub (span_match (u ''~~'') (u ''<strike>'') (u ''</strike>'')) content;
          content = regex_sub inline_code_match content;
          content = sub_lines (replace_prefix bullet bullet) content;
          content = sub_lines (replace_prefix (u ''- '') bullet) content;
          content = sub_lines numbered content;
          content = sub_lines (wrap_line (u ''> '') (u ''<i>\"  '') (u ''  \"</i>'')) content;
          content = regex_sub code_block_match content;
          content = regex_sub table_match content;
          content = sub_lines (replace_prefix (u ''- [x] '') [10003, 32]) content;
          content = sub_lines (replace_prefix (u ''- [ ] '') [9744, 32]) content;
          content = sub_lines hrule content;
          content = regex_sub link_match content;
          content = py_replace [10, 10] (u ''<br/><br/>'') content;
          content = py_replace [10] (u ''<br/>'') content
      in content)"

text \<open>
  The paragraphs an export makes of a note's content: the cleaned text split at
  \<^verbatim>\<open><br/><br/>\<close>, each piece stripped, the empty ones left out.
\<close>

definition content_paragraphs :: "pystr \<Rightarrow> pystr list" where
  "content_paragraphs c =
     filter (\<lambda>p. p \<noteq> [])
       (map py_strip (py_split (u ''<br/><br/>'') (clean_content c)))"

subsection \<open>Text that the substitutions leave alone\<close>

text \<open>
  A line starts quietly when it is empty or its first character is none of \<^verbatim>\<open>#\<close>, \<^verbatim>\<open>-\<close>,
  \<^verbatim>\<open>>\<close> and no decimal digit: no line-anchored substitution applies to it (the one for
  a leading bullet replaces the bullet by itself). \<open>no_inline\<close> holds of a text with none of
  \<^verbatim>\<open>*\<close>, \<^verbatim>\<open>~\<close>, \<^verbatim>\<open>|\<close> and \<^verbatim>\<open>[\<close>, the characters at which bold, italic, strikethrough,
  tables and links begin.
\<close>

definition starts_quiet :: "pystr \<Rightarrow> bool" where
  "starts_quiet l =
     (case l of [] \<Rightarrow> True | c # cs \<Rightarrow> c \<noteq> 35 \<and> c \<noteq> 45 \<and> c \<noteq> 62 \<and> \<not> py_isdecimal c)"

definition quiet_lines :: "pystr \<Rightarrow> bool" where
  "quiet_lines s = list_all starts_quiet (py_split [10] s)"

definition no_inline :: "pystr \<Rightarrow> bool" where
  "no_inline s = list_all (\<lambda>c. c \<noteq> 42 \<and> c \<noteq> 126 \<and> c \<noteq> 124 \<and> c \<noteq> 91) s"

text \<open>
  The last two steps of \<^verbatim>\<open>clean_content\<close> alone: literal text with its line breaks
  written as \<^verbatim>\<open><br/>\<close>.
\<close>

definition line_breaks :: "pystr \<Rightarrow> pystr" where
  "line_breaks s = py_replace [10] (u ''<br/>'') (py_replace [10, 10] (u ''<br/><br/>'') s)"


section \<open>The document assembler (pdf\_generator.py, the three generate functions)\<close>

text \<open>
  The layout library and the clock are not part of the repository. What the assembler
  asks of them is a parameter of the model:
  \<^item> \<open>markup_ok t\<close>: the constructor \<^verbatim>\<open>Paragraph(t, style)\<close> accepts the markup of \<open>t\<close>
    (it raises \<^verbatim>\<open>ValueError\<close> otherwise);
  \<^item> \<open>isoformat_strftime s fmt\<close>: the value of
    \<^verbatim>\<open>datetime.fromisoformat(s).strftime(fmt)\<close>, or the exception it raises;
  \<^item> \<open>now_strftime fmt\<close>: the value of \<^verbatim>\<open>datetime.now().strftime(fmt)\<close>;
  \<^item> \<open>build doc story\<close>: the bytes left in the buffer by \<^verbatim>\<open>doc.build(story)\<close>, or the
    exception it raises.
\<close>

type_synonym bytes = "nat list"

datatype style = CustomTitle | CustomHeading | CustomBody | MetaData | Separator

datatype flowable = Para pystr style | Spacer nat nat | PageBreak

text \<open>
  \<^verbatim>\<open>SimpleDocTemplate(buffer, pagesize=A4, ...)\<close>: the four margins in points when the
  call gives them (\<^verbatim>\<open>1*inch\<close> is 72 points), \<open>None\<close> when it leaves them to the library.
\<close>

datatype doc = SimpleDocTemplate "nat option"

record backend =
  markup_ok :: "pystr \<Rightarrow> bool"
  isoformat_strftime :: "pystr \<Rightarrow> pystr \<Rightarrow> exn + pystr"
  now_strftime :: "pystr \<Rightarrow> pystr"
  build :: "doc \<Rightarrow> flowable list \<Rightarrow> exn + bytes"

text \<open>A statement that may raise, followed by the rest of the block.\<close>

definition and_then :: "exn + 'a \<Rightarrow> ('a \<Rightarrow> exn + 'b) \<Rightarrow> exn + 'b" where
  "and_then r f = (case r of Inl e \<Rightarrow> Inl e | Inr v \<Rightarrow> f v)"

definition Paragraph :: "backend \<Rightarrow> pystr \<Rightarrow> style \<Rightarrow> exn + flowable" where
  "Paragraph be t st = (if markup_ok be t then Inr (Para t st) else Inl ValueError)"

text \<open>\<^verbatim>\<open>str(i)\<close> for a natural number: its decimal digits.\<close>

fun py_str :: "nat \<Rightarrow> pystr" where
  "py_str n = (if n < 10 then [48 + n] else py_str (n div 10) @ [48 + n mod 10])"

declare py_str.simps [simp del]

definition long_format :: pystr where
  "long_format = u ''%B %d, %Y at %I:%M %p''"

definition short_format :: pystr where
  "short_format = u ''%m/%d/%Y''"

text \<open>
  \<^verbatim>\<open>generate_error_pdf\<close>. The two paragraphs are made before the \<^verbatim>\<open>try\<close>; a failing
  build is answered with the empty byte string.
\<close>

definition generate_error_pdf :: "backend \<Rightarrow> pystr \<Rightarrow> exn + bytes" where
  "generate_error_pdf be error_message =
     and_then (Paragraph be (u ''PDF Generation Error'') CustomTitle) (\<lambda>error_title.
     and_then (Paragraph be error_message CustomBody) (\<lambda>error_para.
       (case build be (SimpleDocTemplate None) [error_title, Spacer 1 12, error_para] of
          Inr pdf \<Rightarrow> Inr pdf
        | Inl e \<Rightarrow> Inr [])))"

text \<open>
  The loop over the paragraphs of a note's content: a paragraph of style
  \<^verbatim>\<open>CustomBody\<close> and a spacer for each.
\<close>

fun body_flowables :: "backend \<Rightarrow> pystr list \<Rightarrow> exn + flowable list" where
  "body_flowables be [] = Inr []"
| "body_flowables be (paragraph_text # rest) =
     and_then (Paragraph be paragraph_text CustomBody) (\<lambda>paragraph.
     and_then (body_flowables be rest) (\<lambda>more.
       Inr (paragraph # Spacer 1 6 # more)))"

definition meta_text :: "Note \<Rightarrow> pystr \<Rightarrow> pystr \<Rightarrow> pystr" where
  "meta_text note created_date updated_date =
     u ''Created: '' @ created_date
     @ (if created_at note \<noteq> updated_at note then u '' | Last Updated: '' @ updated_date
        else [])"

text \<open>
  \<^verbatim>\<open>generate_single_note_pdf\<close>: the story is put together first, outside the \<^verbatim>\<open>try\<close>;
  only the build is guarded. The rule under the metadata is fifty times U+2500.
\<close>

definition single_note_story :: "backend \<Rightarrow> Note \<Rightarrow> exn + flowable list" where
  "single_note_story be note =
     and_then (Paragraph be (title note) CustomTitle) (\<lambda>title_para.
     and_then (isoformat_strftime be (created_at note) long_format) (\<lambda>created_date.
     and_then (isoformat_strftime be (updated_at note) long_format) (\<lambda>updated_date.
     and_then (Paragraph be (meta_text note created_date updated_date) MetaData) (\<lambda>metadata.
     and_then (Paragraph be (replicate 50 9472) Separator) (\<lambda>separator.
     and_then (body_flowables be (content_paragraphs (content note))) (\<lambda>body.
       Inr ([title_para, Spacer 1 12, metadata, Spacer 1 12, separator] @ body)))))))"

definition generate_single_note_pdf :: "backend \<Rightarrow> Note \<Rightarrow> exn + bytes" where
  "generate_single_note_pdf be note =
     and_then (single_note_story be note) (\<lambda>story.
       (case build be (SimpleDocTemplate (Some 72)) story of
          Inr pdf \<Rightarrow> Inr pdf
        | Inl e \<Rightarrow> generate_error_pdf be (u ''Error generating PDF'')))"

text \<open>
  \<^verbatim>\<open>generate_all_notes_pdf\<close>: the two loops over \<^verbatim>\<open>enumerate(notes, 1)\<close>, the first for the
  table of contents, the second for the notes themselves, where \<open>len_notes\<close> is
  \<^verbatim>\<open>len(notes)\<close>. The rule between two notes is eighty times U+2500.
\<close>

fun toc_entries :: "backend \<Rightarrow> nat \<Rightarrow> Note list \<Rightarrow> exn + flowable list" where
  "toc_entries be i [] = Inr []"
| "toc_entries be i (note # rest) =
     and_then (isoformat_strftime be (created_at note) short_format) (\<lambda>created_date.
     and_then (Paragraph be
                 (py_str i @ u ''. '' @ title note @ u '' ('' @ created_date @ u '')'')
                 CustomBody) (\<lambda>toc_para.
     and_then (toc_entries be (Suc i) rest) (\<lambda>more.
       Inr (toc_para # more))))"

fun note_sections :: "backend \<Rightarrow> nat \<Rightarrow> nat \<Rightarrow> Note list \<Rightarrow> exn + flowable list" where
  "note_sections be len_notes i [] = Inr []"
| "note_sections be len_notes i (note # rest) =
     and_then (Paragraph be (py_str i @ u ''. '' @ title note) CustomTitle) (\<lambda>title_para.
     and_then (isoformat_strftime be (created_at note) long_format) (\<lambda>created_date.
     and_then (isoformat_strftime be (updated_at note) long_format) (\<lambda>updated_date.
     and_then (Paragraph be (meta_text note created_date updated_date) MetaData) (\<lambda>metadata.
     and_then (body_flowables be (content_paragraphs (content note))) (\<lambda>body.
     and_then (if i < len_notes
               then and_then (Paragraph be (replicate 80 9472) Separator) (\<lambda>separator.
                      Inr [Spacer 1 24, separator, Spacer 1 24])
               else Inr []) (\<lambda>between.
     and_then (note_sections be len_notes (Suc i) rest) (\<lambda>more.
       Inr ([title_para, Spacer 1 12, metadata, Spacer 1 8] @ body @ between @ more))))))))"

definition all_notes_story :: "backend \<Rightarrow> Note list \<Rightarrow> exn + flowable list" where
  "all_notes_story be notes =
     and_then (Paragraph be (u ''My Notes Collection'') CustomTitle) (\<lambda>cover_title.
     and_then (Paragraph be (u ''Generated on: '' @ now_strftime be long_format) MetaData)
       (\<lambda>date_para.
     and_then (Paragraph be (u ''Total Notes: '' @ py_str (length notes)) CustomBody)
       (\<lambda>summary_para.
     and_then (Paragraph be (u ''Table of Contents'') CustomHeading) (\<lambda>toc_title.
     and_then (toc_entries be 1 notes) (\<lambda>toc.
     and_then (note_sections be (length notes) 1 notes) (\<lambda>sections.
       Inr ([cover_title, Spacer 1 12, date_para, Spacer 1 12, summary_para, Spacer 1 24,
             toc_title, Spacer 1 12] @ toc @ [PageBreak] @ sections)))))))"

definition generate_all_notes_pdf :: "backend \<Rightarrow> Note list \<Rightarrow> exn + bytes" where
  "generate_all_notes_pdf be notes =
     and_then (all_notes_story be notes) (\<lambda>story.
       (case build be (SimpleDocTemplate (Some 72)) story of
          Inr pdf \<Rightarrow> Inr pdf
        | Inl e \<Rightarrow> generate_error_pdf be (u ''Error generating notes collection PDF'')))"

text \<open>
  The fallback document for a message: what the build makes of the error title, a spacer
  and the message.
\<close>

definition error_story :: "pystr \<Rightarrow> flowable list" where
  "error_story error_message =
     [Para (u ''PDF Generation Error'') CustomTitle, Spacer 1 12, Para error_message CustomBody]"

text \<open>
  Three backends used in the examples. All accept every markup and leave a timestamp
  as it is. The first builds nothing at all; the second builds a story of at most three
  flowables (the fallback document) into one byte per flowable and nothing longer; the
  third builds every story.
\<close>

definition byte_of :: "flowable \<Rightarrow> nat" where
  "byte_of f = (case f of Para t st \<Rightarrow> length t | Spacer w h \<Rightarrow> h | PageBreak \<Rightarrow> 0)"

definition failing_backend :: backend where
  "failing_backend =
     \<lparr>markup_ok = (\<lambda>t. True), isoformat_strftime = (\<lambda>s fmt. Inr s),
      now_strftime = (\<lambda>fmt. u ''now''), build = (\<lambda>d story. Inl OSError)\<rparr>"

definition short_backend :: backend where
  "short_backend =
     \<lparr>markup_ok = (\<lambda>t. True), isoformat_strftime = (\<lambda>s fmt. Inr s),
      now_strftime = (\<lambda>fmt. u ''now''),
      build = (\<lambda>d story. if length story \<le> 3 then Inr (map byte_of story) else Inl OSError)\<rparr>"

definition simple_backend :: backend where
  "simple_backend =
     \<lparr>markup_ok = (\<lambda>t. True), isoformat_strftime = (\<lambda>s fmt. Inr s),
      now_strftime = (\<lambda>fmt. u ''now''), build = (\<lambda>d story. Inr (map byte_of story))\<rparr>"
section \<open>Properties of the note store\<close>

lemma u_simps: "u [] = []" "u (c # cs) = of_char c # u cs"
  by (simp_all add: u_def)

lemma except_Exception_simps [simp]:
  "except_Exception (Inl e) v = Inr v" "except_Exception (Inr x) v = Inr x"
  by (simp_all add: except_Exception_def)

lemma n1_sel: "note_id n1 = u ''a1''" "title n1 = u ''Greeting''" "content n1 = u ''say hello''"
  "created_at n1 = u ''2024-01-01T10:00:00''" "updated_at n1 = u ''2024-01-01T10:00:00''"
  by (simp_all add: n1_def)

lemma n2_sel: "note_id n2 = u ''b2''" "title n2 = u ''Shopping''" "content n2 = u ''milk''"
  "created_at n2 = u ''2024-01-02T09:30:00.250000''" "updated_at n2 = u ''2024-01-02T09:30:00.250000''"
  by (simp_all add: n2_def)

text \<open>
  Claim C1, as the code has it. \<^verbatim>\<open>create_note\<close> returns the generated id exactly when the
  load did not raise and the save succeeded, and \<^verbatim>\<open>None\<close> otherwise. A successful save
  replaces the persisted collection by the whole loaded collection with the new note
  appended. When the load raises or the file cannot be opened for writing, the persisted
  collection is untouched. When the write fails after the file has been opened, the file
  is left cut off: it no longer holds the collection.
\<close>

theorem create_note_outcome:
  "(fst (create_note w nid now d t c) = Inr (Some nid) \<or> fst (create_note w nid now d t c) = Inr None)
   \<and> (fst (create_note w nid now d t c) = Inr (Some nid)
        \<longleftrightarrow> w = WriteOk \<and> (\<exists>notes. load_notes d = Inr notes))
   \<and> (w = WriteOk \<and> load_notes d = Inr notes
        \<longrightarrow> snd (create_note w nid now d t c) = Stored (notes @ [new_note nid now t c]))
   \<and> (w = OpenFails e \<or> load_notes d = Inl e' \<longrightarrow> snd (create_note w nid now d t c) = d)
   \<and> (w = DumpFails e \<and> load_notes d = Inr notes
        \<longrightarrow> snd (create_note w nid now d t c) = Faulty JSONDecodeError)"
  by (cases w; cases "load_notes d") (auto simp: create_note_def save_notes_def)

theorem create_note_outcome_witness:
  "fst (create_note WriteOk (u ''b2'') (u ''2024'') (Stored [n1]) (u ''T'') (u ''C'')) = Inr (Some (u ''b2''))
   \<and> snd (create_note WriteOk (u ''b2'') (u ''2024'') (Stored [n1]) (u ''T'') (u ''C''))
       = Stored [n1, new_note (u ''b2'') (u ''2024'') (u ''T'') (u ''C'')]
   \<and> snd (create_note (OpenFails PermissionError) (u ''b2'') (u ''2024'') (Stored [n1]) (u ''T'') (u ''C''))
       = Stored [n1]"
proof -
  have l: "load_notes (Stored [n1]) = Inr [n1]" by (simp add: load_notes_def)
  show ?thesis
    using create_note_outcome [of WriteOk "u ''b2''" "u ''2024''" "Stored [n1]" "u ''T''" "u ''C''" "[n1]"]
      create_note_outcome [of "OpenFails PermissionError" "u ''b2''" "u ''2024''" "Stored [n1]"
         "u ''T''" "u ''C''" _ PermissionError]
      l by simp
qed

text \<open>
  Claim C1 as stated fails: a save that fails while writing reports failure, yet the
  collection that held \<open>n1\<close> before the call is gone afterwards.
\<close>

theorem create_note_partial_write:
  "fst (create_note (DumpFails OSError) (u ''b2'') (u ''2024-01-02T09:30:00'') (Stored [n1])
         (u ''Shopping'') (u ''milk'')) = Inr None
   \<and> snd (create_note (DumpFails OSError) (u ''b2'') (u ''2024-01-02T09:30:00'') (Stored [n1])
         (u ''Shopping'') (u ''milk'')) \<noteq> Stored [n1]
   \<and> get_note (snd (create_note (DumpFails OSError) (u ''b2'') (u ''2024-01-02T09:30:00'') (Stored [n1])
         (u ''Shopping'') (u ''milk''))) (u ''a1'') = Inr None
   \<and> get_note (Stored [n1]) (u ''a1'') = Inr (Some n1)"
  by (simp add: create_note_def load_notes_def save_notes_def get_note_def n1_sel)

text \<open>
  Claim C2. Whatever exception reading the data file raises, \<^verbatim>\<open>get_note\<close>,
  \<^verbatim>\<open>get_all_notes\<close>, \<^verbatim>\<open>search_notes\<close> and \<^verbatim>\<open>get_notes_count\<close> answer as they do on
  an empty collection, and in every state of the file each of them returns a value:
  no exception leaves the store.
\<close>

theorem load_failure_reads_as_empty:
  "get_note (Faulty e) nid = Inr None \<and> get_all_notes (Faulty e) = Inr []
   \<and> search_notes (Faulty e) q = Inr [] \<and> get_notes_count (Faulty e) = Inr 0
   \<and> get_note (Faulty e) nid = get_note (Stored []) nid
   \<and> get_all_notes (Faulty e) = get_all_notes (Stored [])
   \<and> search_notes (Faulty e) q = search_notes (Stored []) q
   \<and> get_notes_count (Faulty e) = get_notes_count (Stored [])
   \<and> (\<exists>r. get_note d nid = Inr r) \<and> (\<exists>r. get_all_notes d = Inr r)
   \<and> (\<exists>r. search_notes d q = Inr r) \<and> (\<exists>r. get_notes_count d = Inr r)"
  by (cases d) (auto simp: get_note_def get_all_notes_def search_notes_def get_notes_count_def
      load_notes_def sorted_reverse_def except_Exception_def split: sum.splits)

theorem load_failure_reads_as_empty_witness:
  "load_notes (Faulty PermissionError) = Inl PermissionError
   \<and> get_note (Faulty PermissionError) (u ''a1'') = Inr None
   \<and> get_all_notes (Faulty PermissionError) = Inr []
   \<and> search_notes (Faulty JSONDecodeError) (u ''hello'') = Inr []
   \<and> get_notes_count (Faulty FileNotFoundError) = Inr 0"
  using load_failure_reads_as_empty [of PermissionError "u ''a1''"]
    load_failure_reads_as_empty [of JSONDecodeError _ "u ''hello''"]
    load_failure_reads_as_empty [of FileNotFoundError]
  by (simp add: load_notes_def)

lemma find_append_fresh:
  "\<forall>n\<in>set xs. \<not> P n \<Longrightarrow> P x \<Longrightarrow> find P (xs @ [x]) = Some x"
  by (induction xs) auto

text \<open>
  Claim C5. If \<^verbatim>\<open>create_note\<close> succeeds and returns an id, \<^verbatim>\<open>get_note\<close> on that id returns
  a note with the given title and content whose two timestamps are equal, both the
  creation time. The id is the one \<^verbatim>\<open>uuid4\<close> generated; that it is fresh, not the id of
  a note already stored, is the hypothesis on the generator.
\<close>

theorem create_then_get:
  assumes "create_note w nid now d t c = (Inr (Some i), d')"
    and "nid \<notin> note_id ` set (stored d)"
  shows "\<exists>n. get_note d' i = Inr (Some n) \<and> note_id n = i \<and> title n = t \<and> content n = c
            \<and> created_at n = updated_at n \<and> created_at n = now"
proof -
  from assms(1) obtain ns where l: "load_notes d = Inr ns"
    by (cases "load_notes d") (auto simp: create_note_def)
  from assms(1) l have w: "w = WriteOk" and i: "i = nid"
    and d': "d' = Stored (ns @ [new_note nid now t c])"
    by (cases w; auto simp: create_note_def save_notes_def)+
  from assms(2) l have "\<forall>n\<in>set ns. note_id n \<noteq> nid"
    by (auto simp: stored_def)
  then have "find (\<lambda>n. note_id n = nid) (ns @ [new_note nid now t c]) = Some (new_note nid now t c)"
    by (intro find_append_fresh) (auto simp: new_note_def)
  then show ?thesis
    by (simp add: d' i get_note_def load_notes_def new_note_def)
qed

theorem create_then_get_witness:
  "create_note WriteOk (u ''b2'') (u ''2024-01-02T09:30:00'') (Stored [n1]) (u ''Shopping'') (u ''milk'')
     = (Inr (Some (u ''b2'')), Stored [n1, new_note (u ''b2'') (u ''2024-01-02T09:30:00'') (u ''Shopping'') (u ''milk'')])
   \<and> u ''b2'' \<notin> note_id ` set (stored (Stored [n1]))
   \<and> (\<exists>n. get_note (Stored [n1, new_note (u ''b2'') (u ''2024-01-02T09:30:00'') (u ''Shopping'') (u ''milk'')]) (u ''b2'')
            = Inr (Some n)
          \<and> title n = u ''Shopping'' \<and> content n = u ''milk'' \<and> created_at n = updated_at n)"
proof -
  have h1: "create_note WriteOk (u ''b2'') (u ''2024-01-02T09:30:00'') (Stored [n1]) (u ''Shopping'') (u ''milk'')
     = (Inr (Some (u ''b2'')), Stored [n1, new_note (u ''b2'') (u ''2024-01-02T09:30:00'') (u ''Shopping'') (u ''milk'')])"
    by (simp add: create_note_def load_notes_def save_notes_def)
  have h2: "u ''b2'' \<notin> note_id ` set (stored (Stored [n1]))"
    by (simp add: stored_def load_notes_def n1_sel u_simps)
  from create_then_get [OF h1 h2] h1 h2 show ?thesis by blast
qed




lemma sorted_reverse_mset: "mset (sorted_reverse k xs) = mset xs"
  by (simp add: sorted_reverse_def)

lemma sorted_reverse_desc: "sorted (rev (map k (sorted_reverse k xs)))"
  by (simp add: sorted_reverse_def rev_map)

text \<open>
  Claim C7. When the creation timestamps of the stored notes are pairwise distinct,
  \<^verbatim>\<open>get_all_notes\<close> returns all stored notes, each once, in strictly descending order of
  \<open>created_at\<close>: newest first.
\<close>

theorem get_all_notes_sorted:
  assumes "distinct (map created_at (stored d))"
  shows "\<exists>r. get_all_notes d = Inr r \<and> mset r = mset (stored d)
           \<and> sorted_wrt (\<lambda>a b. created_at b < created_at a) r"
proof -
  let ?r = "sorted_reverse created_at (stored d)"
  have r: "get_all_notes d = Inr ?r"
    by (cases "load_notes d") (simp_all add: get_all_notes_def stored_def sorted_reverse_def)
  have m: "mset ?r = mset (stored d)" by (rule sorted_reverse_mset)
  have "mset (map created_at ?r) = mset (map created_at (stored d))"
    using m by (metis mset_map)
  with assms have dist: "distinct (rev (map created_at ?r))"
    by (metis distinct_rev mset_eq_imp_distinct_iff)
  have "sorted (rev (map created_at ?r))" by (rule sorted_reverse_desc)
  with dist have "sorted_wrt (<) (rev (map created_at ?r))"
    by (simp add: strict_sorted_iff)
  then have "sorted_wrt (\<lambda>a b. b < a) (map created_at ?r)"
    by (simp add: sorted_wrt_rev)
  then have "sorted_wrt (\<lambda>a b. created_at b < created_at a) ?r"
    by (simp add: sorted_wrt_map)
  with r m show ?thesis by blast
qed

theorem get_all_notes_sorted_witness:
  "distinct (map created_at (stored (Stored [n1, n2])))
   \<and> (\<exists>r. get_all_notes (Stored [n1, n2]) = Inr r \<and> mset r = mset [n1, n2]
          \<and> sorted_wrt (\<lambda>a b. created_at b < created_at a) r)"
proof -
  have h: "distinct (map created_at (stored (Stored [n1, n2])))"
    by (simp add: stored_def load_notes_def n1_sel n2_sel u_simps)
  have s: "stored (Stored [n1, n2]) = [n1, n2]" by (simp add: stored_def load_notes_def)
  from get_all_notes_sorted [OF h] h s show ?thesis by simp
qed

text \<open>
  Claim C10. \<^verbatim>\<open>delete_note\<close> returns success exactly when some stored note has the id and
  the save succeeds; the saved collection is then the old one without every note of
  that id. When no note has the id it returns failure and leaves the file as it was.
  When the id occurred once, a successful delete makes the store one note smaller and
  \<^verbatim>\<open>get_note\<close> on the id finds nothing.
\<close>

theorem delete_note_spec:
  assumes "delete_note w d nid = (r, d')"
  shows "(r = Inr True \<longleftrightarrow> (\<exists>n\<in>set (stored d). note_id n = nid) \<and> w = WriteOk)
       \<and> (r = Inr True \<or> r = Inr False)
       \<and> (r = Inr True \<longrightarrow> d' = Stored (filter (\<lambda>n. note_id n \<noteq> nid) (stored d)))
       \<and> (\<not> (\<exists>n\<in>set (stored d). note_id n = nid) \<longrightarrow> r = Inr False \<and> d' = d)
       \<and> (r = Inr True \<and> length (filter (\<lambda>n. note_id n = nid) (stored d)) = 1
            \<longrightarrow> Suc (length (stored d')) = length (stored d)
              \<and> get_notes_count d' = Inr (length (stored d) - 1)
              \<and> get_note d' nid = Inr None)"
proof (cases "load_notes d")
  case (Inl e)
  with assms show ?thesis by (auto simp: delete_note_def stored_def)
next
  case (Inr ns)
  let ?ns' = "filter (\<lambda>n. note_id n \<noteq> nid) ns"
  have st: "stored d = ns" using Inr by (simp add: stored_def)
  have len: "length ?ns' < length ns \<longleftrightarrow> (\<exists>n\<in>set ns. note_id n = nid)"
  proof
    assume "length ?ns' < length ns"
    then have "?ns' \<noteq> ns" by auto
    then show "\<exists>n\<in>set ns. note_id n = nid" by (auto simp: filter_id_conv)
  next
    assume "\<exists>n\<in>set ns. note_id n = nid"
    then show "length ?ns' < length ns" by (auto intro: length_filter_less)
  qed
  have fnd: "find (\<lambda>n. note_id n = nid) ?ns' = None"
    by (simp add: find_None_iff)
  have cnt: "length ?ns' + length (filter (\<lambda>n. note_id n = nid) ns) = length ns"
    using sum_length_filter_compl[of "\<lambda>n. note_id n = nid" ns] by (simp add: add.commute)
  show ?thesis
  proof (cases "\<exists>n\<in>set ns. note_id n = nid")
    case False
    with assms Inr len st show ?thesis by (auto simp: delete_note_def Let_def)
  next
    case True
    with len have lt: "length ?ns' < length ns" by simp
    show ?thesis
    proof (cases w)
      case WriteOk
      with assms Inr lt have "r = Inr True" "d' = Stored ?ns'"
        by (auto simp: delete_note_def Let_def save_notes_def)
      with True st WriteOk cnt fnd show ?thesis
        by (auto simp: stored_def load_notes_def get_notes_count_def get_note_def)
    next
      case (OpenFails e)
      with assms Inr lt have "r = Inr False"
        by (auto simp: delete_note_def Let_def save_notes_def)
      with True st OpenFails show ?thesis by auto
    next
      case (DumpFails e)
      with assms Inr lt have "r = Inr False"
        by (auto simp: delete_note_def Let_def save_notes_def)
      with True st DumpFails show ?thesis by auto
    qed
  qed
qed

theorem delete_note_spec_witness:
  "delete_note WriteOk (Stored [n1, n2]) (u ''a1'') = (Inr True, Stored [n2])
   \<and> get_notes_count (Stored [n2]) = Inr 1 \<and> get_note (Stored [n2]) (u ''a1'') = Inr None"
proof -
  have h: "delete_note WriteOk (Stored [n1, n2]) (u ''a1'') = (Inr True, Stored [n2])"
    by (simp add: delete_note_def load_notes_def save_notes_def n1_sel n2_sel u_simps)
  have s: "stored (Stored [n1, n2]) = [n1, n2]" by (simp add: stored_def load_notes_def)
  from delete_note_spec [OF h] s show ?thesis
    using h by (simp add: n1_sel n2_sel u_simps)
qed
lemma py_in_iff: "py_in q s \<longleftrightarrow> (\<exists>k\<le>length s. prefix q (drop k s))"
proof (induction s)
  case Nil
  then show ?case by auto
next
  case (Cons c cs)
  show ?case
  proof
    assume "py_in q (c # cs)"
    then consider "prefix q (c # cs)" | "py_in q cs" by auto
    then show "\<exists>k\<le>length (c # cs). prefix q (drop k (c # cs))"
    proof cases
      case 1
      then show ?thesis by (intro exI[of _ 0]) simp
    next
      case 2
      with Cons.IH obtain k where "k \<le> length cs" "prefix q (drop k cs)" by blast
      then show ?thesis by (intro exI[of _ "Suc k"]) simp
    qed
  next
    assume "\<exists>k\<le>length (c # cs). prefix q (drop k (c # cs))"
    then obtain k where k: "k \<le> length (c # cs)" "prefix q (drop k (c # cs))" by blast
    show "py_in q (c # cs)"
    proof (cases k)
      case 0
      with k show ?thesis by simp
    next
      case (Suc m)
      with k have "m \<le> length cs" "prefix q (drop m cs)" by auto
      with Cons.IH show ?thesis by auto
    qed
  qed
qed

lemma prefix_map_iff:
  "prefix (map f q) (map f s) \<longleftrightarrow> list_all2 (\<lambda>a b. f a = f b) q (take (length q) s)"
proof (induction q arbitrary: s)
  case Nil
  then show ?case by simp
next
  case (Cons a q)
  then show ?case by (cases s) auto
qed

lemma do_lower_plain: "plain_case s \<Longrightarrow> do_lower before s = map lower_char s"
  by (induction s arbitrary: before) (simp_all add: plain_case_def lower_ucs4_def)

lemma lower_plain: "plain_case s \<Longrightarrow> lower s = map lower_char s"
  by (simp add: lower_def do_lower_plain)

lemma plain_case_drop: "plain_case s \<Longrightarrow> plain_case (drop k s)"
  by (auto simp: plain_case_def list_all_iff dest: in_set_dropD)

lemma occurs_iff:
  "(\<exists>k\<le>length s. list_all2 R q (take (length q) (drop k s)))
     \<longleftrightarrow> list_ex (\<lambda>k. list_all2 R q (take (length q) (drop k s))) [0..<Suc (length s)]"
  by (auto simp: list_ex_iff less_Suc_eq_le simp del: upt_Suc)

lemma py_in_lower:
  assumes "plain_case q" and "plain_case s"
  shows "py_in (lower q) (lower s) \<longleftrightarrow> ci_substring q s"
proof -
  have "py_in (lower q) (lower s)
          \<longleftrightarrow> (\<exists>k\<le>length s. prefix (map lower_char q) (map lower_char (drop k s)))"
    using assms by (simp add: py_in_iff lower_plain drop_map)
  also have "\<dots> \<longleftrightarrow> (\<exists>k\<le>length s. list_all2 ci_eq q (take (length q) (drop k s)))"
    unfolding prefix_map_iff ci_eq_def ..
  also have "\<dots> \<longleftrightarrow> ci_substring q s"
    unfolding ci_substring_def by (rule occurs_iff)
  finally show ?thesis .
qed

lemma lookup_run_below:
  "list_all (\<lambda>(lo, hi, step, tgt). c < lo) runs \<Longrightarrow> lookup_run runs c = c"
  by (induction runs) auto

lemma lower_char_latin1:
  assumes "c < 256"
  shows "lower_char c = (if capital c then c + 32 else c)"
proof -
  obtain rest where r: "lower_runs = (65, 90, 1, 97) # (192, 214, 1, 224) # (216, 222, 1, 248) # rest"
    and b: "list_all (\<lambda>(lo, hi, step, tgt). 256 \<le> lo) rest"
    by (simp add: lower_runs_def)
  have "list_all (\<lambda>(lo, hi, step, tgt). c < lo) rest"
    using b assms by (auto simp: list_all_iff)
  then have "lookup_run rest c = c" by (rule lookup_run_below)
  then show ?thesis
    using assms by (auto simp: lower_char_def r capital_def)
qed

lemma ci_eq_latin1: "a < 256 \<Longrightarrow> b < 256 \<Longrightarrow> ci_eq a b \<longleftrightarrow> same_letter a b"
  unfolding ci_eq_def same_letter_def
  by (simp add: lower_char_latin1) (auto simp: capital_def)

lemma latin1_plain_case: "latin1 s \<Longrightarrow> plain_case s"
  by (auto simp: latin1_def plain_case_def list_all_iff)

lemma ci_substring_latin1:
  assumes "latin1 q" and "latin1 s"
  shows "ci_substring q s \<longleftrightarrow> same_letter_substring q s"
proof -
  have "list_all2 ci_eq q (take (length q) (drop k s))
          \<longleftrightarrow> list_all2 same_letter q (take (length q) (drop k s))" for k
  proof (rule list.rel_cong)
    fix a b
    assume "a \<in> set q" and "b \<in> set (take (length q) (drop k s))"
    then have "a < 256" and "b < 256"
      using assms by (auto simp: latin1_def list_all_iff dest!: in_set_takeD in_set_dropD)
    then show "ci_eq a b \<longleftrightarrow> same_letter a b" by (rule ci_eq_latin1)
  qed simp_all
  then show ?thesis by (simp add: ci_substring_def same_letter_substring_def)
qed

lemma py_in_lower_latin1:
  "latin1 q \<Longrightarrow> latin1 s \<Longrightarrow> py_in (lower q) (lower s) \<longleftrightarrow> same_letter_substring q s"
  by (simp add: py_in_lower latin1_plain_case ci_substring_latin1)

lemma newest_first_example: "get_all_notes (Stored [n1, n2]) = Inr [n2, n1]"
  by (simp add: get_all_notes_def load_notes_def sorted_reverse_def n1_sel n2_sel u_simps)

lemma n3_sel: "note_id n3 = u ''c3''" "title n3 = u ''Lesson''" "content n3 = [233, 99, 111, 108, 101]"
  by (simp_all add: n3_def)

lemma n4_sel: "note_id n4 = u ''d4''" "title n4 = u ''Street''" "content n4 = [927, 916, 927, 931]"
  by (simp_all add: n4_def)

lemma one_note_listing: "get_all_notes (Stored [n]) = Inr [n]"
  by (simp add: get_all_notes_def load_notes_def sorted_reverse_def)

lemma lower_street: "lower [927, 916, 927, 931] = [959, 948, 959, 962]"
  by (simp add: lower_def lower_ucs4_def lower_char_def lower_runs_def
      handle_capital_sigma_def case_ignorable_def cased_def in_ranges_def
      case_ignorable_ranges_def cased_ranges_def)

lemma lower_sigma: "lower [931] = [963]"
  by (simp add: lower_def handle_capital_sigma_def)

text \<open>
  Claim C8, as the code has it. \<^verbatim>\<open>search_notes\<close> returns exactly the notes of the full
  listing, in its order, for which the lower-cased query is a substring of the
  lower-cased title or of the lower-cased content. When neither the query nor the notes
  hold U+0130 or the capital sigma, this is: the query occurs at some position of the
  title or the content, the characters compared by their lower-case characters. When
  the query and the notes hold characters below U+0100 only, it is the substring test
  that takes a capital letter and its small letter for the same. The example of the
  claim, the query HELLO against the content "say hello", is in the witness below.
\<close>

theorem search_notes_spec:
  "\<exists>listing. get_all_notes d = Inr listing
     \<and> search_notes d q =
         Inr (filter (\<lambda>n. py_in (lower q) (lower (title n))
                          \<or> py_in (lower q) (lower (content n))) listing)
     \<and> (plain_case q \<and> list_all (\<lambda>n. plain_case (title n) \<and> plain_case (content n)) listing
          \<longrightarrow> search_notes d q =
                Inr (filter (\<lambda>n. ci_substring q (title n) \<or> ci_substring q (content n))
                       listing))
     \<and> (latin1 q \<and> list_all (\<lambda>n. latin1 (title n) \<and> latin1 (content n)) listing
          \<longrightarrow> search_notes d q =
                Inr (filter (\<lambda>n. same_letter_substring q (title n)
                                 \<or> same_letter_substring q (content n)) listing))"
proof -
  obtain listing where l: "get_all_notes d = Inr listing"
    by (cases "load_notes d") (simp_all add: get_all_notes_def)
  have s: "search_notes d q =
         Inr (filter (\<lambda>n. py_in (lower q) (lower (title n))
                          \<or> py_in (lower q) (lower (content n))) listing)"
    by (simp add: search_notes_def l Let_def)
  have p: "filter (\<lambda>n. py_in (lower q) (lower (title n)) \<or> py_in (lower q) (lower (content n)))
             listing
           = filter (\<lambda>n. ci_substring q (title n) \<or> ci_substring q (content n)) listing"
    if "plain_case q" "list_all (\<lambda>n. plain_case (title n) \<and> plain_case (content n)) listing"
    using that by (intro filter_cong) (auto simp: list_all_iff py_in_lower)
  have a: "filter (\<lambda>n. py_in (lower q) (lower (title n)) \<or> py_in (lower q) (lower (content n)))
             listing
           = filter (\<lambda>n. same_letter_substring q (title n) \<or> same_letter_substring q (content n))
               listing"
    if "latin1 q" "list_all (\<lambda>n. latin1 (title n) \<and> latin1 (content n)) listing"
    using that by (intro filter_cong) (auto simp: list_all_iff py_in_lower_latin1)
  show ?thesis using l s p a by auto
qed

theorem search_notes_spec_witness:
  "same_letter_substring (u ''HELLO'') (content n1)
   \<and> search_notes (Stored [n1, n2]) (u ''HELLO'') = Inr [n1]
   \<and> search_notes (Stored [n3]) [201, 67, 79, 76, 69] = Inr [n3]"
proof -
  have l: "get_all_notes (Stored [n1, n2]) = Inr [n2, n1]" by (rule newest_first_example)
  have l3: "get_all_notes (Stored [n3]) = Inr [n3]" by (rule one_note_listing)
  have c: "same_letter_substring (u ''HELLO'') (content n1)"
    "\<not> same_letter_substring (u ''HELLO'') (title n1)"
    "\<not> same_letter_substring (u ''HELLO'') (title n2)"
    "\<not> same_letter_substring (u ''HELLO'') (content n2)"
    by (simp_all add: same_letter_substring_def same_letter_def capital_def u_simps upt_rec
        n1_sel n2_sel)
  have c3: "same_letter_substring [201, 67, 79, 76, 69] (content n3)"
    by (simp add: same_letter_substring_def same_letter_def capital_def upt_rec n3_sel)
  have t: "latin1 (u ''HELLO'')" "latin1 [201, 67, 79, 76, 69]"
    "list_all (\<lambda>n. latin1 (title n) \<and> latin1 (content n)) [n2, n1]"
    "list_all (\<lambda>n. latin1 (title n) \<and> latin1 (content n)) [n3]"
    by (simp_all add: latin1_def n1_sel n2_sel n3_sel u_simps)
  obtain listing where g: "get_all_notes (Stored [n1, n2]) = Inr listing"
    and h: "latin1 (u ''HELLO'') \<and> list_all (\<lambda>n. latin1 (title n) \<and> latin1 (content n)) listing
          \<longrightarrow> search_notes (Stored [n1, n2]) (u ''HELLO'') =
                Inr (filter (\<lambda>n. same_letter_substring (u ''HELLO'') (title n)
                                 \<or> same_letter_substring (u ''HELLO'') (content n)) listing)"
    using search_notes_spec [of "Stored [n1, n2]" "u ''HELLO''"] by blast
  from g l have "listing = [n2, n1]" by simp
  with h t have 1: "search_notes (Stored [n1, n2]) (u ''HELLO'') = Inr [n1]"
    by (simp add: c)
  obtain listing' where g': "get_all_notes (Stored [n3]) = Inr listing'"
    and h': "latin1 [201, 67, 79, 76, 69]
             \<and> list_all (\<lambda>n. latin1 (title n) \<and> latin1 (content n)) listing'
          \<longrightarrow> search_notes (Stored [n3]) [201, 67, 79, 76, 69] =
                Inr (filter (\<lambda>n. same_letter_substring [201, 67, 79, 76, 69] (title n)
                                 \<or> same_letter_substring [201, 67, 79, 76, 69] (content n))
                       listing')"
    using search_notes_spec [of "Stored [n3]" "[201, 67, 79, 76, 69]"] by blast
  from g' l3 have "listing' = [n3]" by simp
  with h' t have 2: "search_notes (Stored [n3]) [201, 67, 79, 76, 69] = Inr [n3]"
    by (simp add: c3)
  from c(1) 1 2 show ?thesis by simp
qed

text \<open>
  Claim C8 as stated fails for a query beyond ASCII: the content of \<open>n4\<close> holds the
  capital sigma, letter for letter, yet a search for the capital sigma does not return
  \<open>n4\<close>. The sigma at the end of the word is lowered to the final sigma U+03C2, the
  sigma that is the whole query to the small sigma U+03C3.
\<close>

theorem search_misses_final_sigma:
  "py_in [931] (content n4) \<and> search_notes (Stored [n4]) [931] = Inr []"
proof -
  have t: "lower (u ''Street'') = u ''street''"
    by (simp add: lower_plain plain_case_def lower_char_latin1 capital_def u_simps)
  have f: "\<not> py_in [963] (u ''street'')"
    by (simp add: u_simps)
  show ?thesis
    by (simp add: search_notes_def one_note_listing Let_def n4_sel lower_street lower_sigma t f)
qed


section \<open>Properties of the markdown renderer\<close>

lemma regex_sub_id: "(\<And>c cs. c \<in> set s \<Longrightarrow> m (c # cs) = None) \<Longrightarrow> regex_sub m s = s"
  by (induction s) auto

lemma py_split_ne: "py_split sep s \<noteq> []"
  by (induction sep s rule: py_split.induct) (auto split: list.splits)

lemma py_join_Cons: "xs \<noteq> [] \<Longrightarrow> py_join sep (x # xs) = x @ sep @ py_join sep xs"
  by (cases xs) auto

lemma join_split_lines: "py_join [10] (py_split [10] s) = s"
proof (induction s)
  case Nil
  then show ?case by simp
next
  case (Cons c cs)
  show ?case
  proof (cases "c = 10")
    case True
    then show ?thesis using Cons by (simp add: py_join_Cons py_split_ne)
  next
    case False
    obtain p ps where sp: "py_split [10] cs = p # ps"
      using py_split_ne[of "[10]" cs] by (cases "py_split [10] cs") auto
    with False Cons show ?thesis by (cases ps) auto
  qed
qed

lemma sub_lines_id:
  assumes "\<And>l. l \<in> set (py_split [10] s) \<Longrightarrow> f l = l"
  shows "sub_lines f s = s"
proof -
  have "map f (py_split [10] s) = py_split [10] s"
    using assms by (simp add: map_idI)
  then show ?thesis by (simp add: sub_lines_def join_split_lines)
qed

lemma wrap_line_quiet:
  "starts_quiet l \<Longrightarrow> hd m \<in> {35, 45, 62} \<Longrightarrow> m \<noteq> [] \<Longrightarrow> wrap_line m a b l = l"
  by (cases l; cases m) (auto simp: wrap_line_def starts_quiet_def)

lemma replace_prefix_quiet:
  "starts_quiet l \<Longrightarrow> hd m \<in> {35, 45, 62} \<Longrightarrow> m \<noteq> [] \<Longrightarrow> replace_prefix m a l = l"
  by (cases l; cases m) (auto simp: replace_prefix_def starts_quiet_def)

lemma replace_prefix_same: "replace_prefix m m l = l"
  by (auto simp: replace_prefix_def prefix_def)

lemma numbered_quiet: "starts_quiet l \<Longrightarrow> numbered l = l"
  by (cases l) (auto simp: numbered_def starts_quiet_def Let_def)

lemma hrule_quiet: "starts_quiet l \<Longrightarrow> hrule l = l"
  by (cases l) (auto simp: hrule_def starts_quiet_def)

lemma span_match_None: "d \<noteq> [] \<Longrightarrow> c \<noteq> hd d \<Longrightarrow> span_match d a b (c # cs) = None"
  by (cases d) (auto simp: span_match_def)

lemma table_match_None: "c \<noteq> 124 \<Longrightarrow> table_match (c # cs) = None"
  by (simp add: table_match_def)

lemma link_match_None: "c \<noteq> 91 \<Longrightarrow> link_match (c # cs) = None"
  by (simp add: link_match_def)

lemma inline_code_match_None: "c \<noteq> 96 \<Longrightarrow> inline_code_match (c # cs) = None"
  by (simp add: inline_code_match_def Let_def)

lemma code_block_match_None: "c \<noteq> 96 \<Longrightarrow> code_block_match (c # cs) = None"
  by (simp add: code_block_match_def u_simps)

lemma clean_content_quiet:
  assumes A: "quiet_lines s" and B: "no_inline s"
    and C: "regex_sub inline_code_match s = s" and D: "regex_sub code_block_match s = s"
  shows "clean_content s = line_breaks s"
proof -
  have q: "\<And>l. l \<in> set (py_split [10] s) \<Longrightarrow> starts_quiet l"
    using A by (simp add: quiet_lines_def list_all_iff)
  have b: "\<And>c. c \<in> set s \<Longrightarrow> c \<noteq> 42 \<and> c \<noteq> 126 \<and> c \<noteq> 124 \<and> c \<noteq> 91"
    using B by (simp add: no_inline_def list_all_iff)
  have h: "sub_lines (heading m sz) s = s" if "hd m \<in> {35, 45, 62}" "m \<noteq> []" for m sz
    using that by (intro sub_lines_id) (simp add: heading_def wrap_line_quiet q)
  have w: "sub_lines (wrap_line m x y) s = s" if "hd m \<in> {35, 45, 62}" "m \<noteq> []" for m x y
    using that by (intro sub_lines_id) (simp add: wrap_line_quiet q)
  have r: "sub_lines (replace_prefix m x) s = s" if "hd m \<in> {35, 45, 62}" "m \<noteq> []" for m x
    using that by (intro sub_lines_id) (simp add: replace_prefix_quiet q)
  have r0: "sub_lines (replace_prefix bullet bullet) s = s"
    by (intro sub_lines_id) (simp add: replace_prefix_same)
  have n: "sub_lines numbered s = s"
    by (intro sub_lines_id) (simp add: numbered_quiet q)
  have hr: "sub_lines hrule s = s"
    by (intro sub_lines_id) (simp add: hrule_quiet q)
  have sp: "regex_sub (span_match d x y) s = s" if "hd d \<in> {42, 126}" "d \<noteq> []" for d x y
    using that b by (intro regex_sub_id span_match_None) auto
  have t: "regex_sub table_match s = s"
    using b by (intro regex_sub_id table_match_None) auto
  have l: "regex_sub link_match s = s"
    using b by (intro regex_sub_id link_match_None) auto
  show ?thesis
    unfolding clean_content_def Let_def line_breaks_def
    by (simp add: h w r r0 n hr sp t l C D u_simps)
qed

lemma regex_sub_append_id:
  "(\<And>c cs. c \<in> set b \<Longrightarrow> m (c # cs) = None) \<Longrightarrow> regex_sub m (b @ r) = b @ regex_sub m r"
  by (induction b) auto

lemma split_no_newline: "10 \<notin> set q \<Longrightarrow> py_split [10] q = [q]"
  by (induction q) auto

lemma split_prepend:
  "10 \<notin> set p \<Longrightarrow> py_split [10] (p @ b) = (p @ hd (py_split [10] b)) # tl (py_split [10] b)"
proof (induction p)
  case Nil
  then show ?case using py_split_ne[of "[10]" b] by simp
next
  case (Cons c p)
  then show ?case by simp
qed

lemma split_append:
  "10 \<notin> set q \<Longrightarrow>
   py_split [10] (b @ q) = butlast (py_split [10] b) @ [last (py_split [10] b) @ q]"
proof (induction b)
  case Nil
  then show ?case by (simp add: split_no_newline)
next
  case (Cons c b)
  obtain l ls where L: "py_split [10] b = l # ls"
    using py_split_ne[of "[10]" b] by (cases "py_split [10] b") auto
  show ?case
  proof (cases "c = 10")
    case True
    with Cons L show ?thesis by simp
  next
    case False
    with Cons L show ?thesis by (cases ls) auto
  qed
qed

lemma starts_quiet_append: "starts_quiet l \<Longrightarrow> starts_quiet q \<Longrightarrow> starts_quiet (l @ q)"
  by (cases l) (auto simp: starts_quiet_def)

lemma starts_quiet_prepend: "p \<noteq> [] \<Longrightarrow> starts_quiet p \<Longrightarrow> starts_quiet (p @ x)"
  by (cases p) (auto simp: starts_quiet_def)

lemma quiet_lines_wrap:
  assumes b: "quiet_lines b" and p: "10 \<notin> set p" "p \<noteq> []" "starts_quiet p"
    and q: "10 \<notin> set q" "starts_quiet q"
  shows "quiet_lines (p @ b @ q)"
proof -
  let ?L = "py_split [10] b"
  let ?M = "butlast ?L @ [last ?L @ q]"
  have L: "\<And>l. l \<in> set ?L \<Longrightarrow> starts_quiet l"
    using b by (simp add: quiet_lines_def list_all_iff)
  have ne: "?L \<noteq> []" by (rule py_split_ne)
  have M: "starts_quiet l" if "l \<in> set ?M" for l
  proof -
    from that consider "l \<in> set (butlast ?L)" | "l = last ?L @ q" by auto
    then show ?thesis
    proof cases
      case 1
      then show ?thesis using L in_set_butlastD by fastforce
    next
      case 2
      then show ?thesis using L[of "last ?L"] ne q(2) by (simp add: starts_quiet_append)
    qed
  qed
  have "py_split [10] (p @ b @ q) = (p @ hd ?M) # tl ?M"
    using split_prepend[OF p(1), of "b @ q"] split_append[OF q(1), of b] by simp
  moreover have "starts_quiet (p @ hd ?M)" using p by (simp add: starts_quiet_prepend)
  moreover have "\<And>l. l \<in> set (tl ?M) \<Longrightarrow> starts_quiet l"
    using M by (meson list.set_sel(2) snoc_eq_iff_butlast)
  ultimately show ?thesis by (simp add: quiet_lines_def list_all_iff)
qed

lemma clean_content_pipeline:
  assumes A: "quiet_lines s" and B: "no_inline s"
    and A': "quiet_lines (regex_sub inline_code_match s)"
    and B': "no_inline (regex_sub inline_code_match s)"
    and D: "regex_sub code_block_match (regex_sub inline_code_match s)
              = regex_sub inline_code_match s"
  shows "clean_content s = line_breaks (regex_sub inline_code_match s)"
proof -
  let ?t = "regex_sub inline_code_match s"
  have q: "\<And>l. l \<in> set (py_split [10] s) \<Longrightarrow> starts_quiet l"
    using A by (simp add: quiet_lines_def list_all_iff)
  have q': "\<And>l. l \<in> set (py_split [10] ?t) \<Longrightarrow> starts_quiet l"
    using A' by (simp add: quiet_lines_def list_all_iff)
  have b: "\<And>c. c \<in> set s \<Longrightarrow> c \<noteq> 42 \<and> c \<noteq> 126 \<and> c \<noteq> 124 \<and> c \<noteq> 91"
    using B by (simp add: no_inline_def list_all_iff)
  have b': "\<And>c. c \<in> set ?t \<Longrightarrow> c \<noteq> 42 \<and> c \<noteq> 126 \<and> c \<noteq> 124 \<and> c \<noteq> 91"
    using B' by (simp add: no_inline_def list_all_iff)
  have h: "sub_lines (heading m sz) s = s" if "hd m \<in> {35, 45, 62}" "m \<noteq> []" for m sz
    using that by (intro sub_lines_id) (simp add: heading_def wrap_line_quiet q)
  have sp: "regex_sub (span_match d x y) s = s" if "hd d \<in> {42, 126}" "d \<noteq> []" for d x y
    using that b by (intro regex_sub_id span_match_None) auto
  have w: "sub_lines (wrap_line m x y) ?t = ?t" if "hd m \<in> {35, 45, 62}" "m \<noteq> []" for m x y
    using that by (intro sub_lines_id) (simp add: wrap_line_quiet q')
  have r: "sub_lines (replace_prefix m x) ?t = ?t" if "hd m \<in> {35, 45, 62}" "m \<noteq> []" for m x
    using that by (intro sub_lines_id) (simp add: replace_prefix_quiet q')
  have r0: "sub_lines (replace_prefix bullet bullet) ?t = ?t"
    by (intro sub_lines_id) (simp add: replace_prefix_same)
  have n: "sub_lines numbered ?t = ?t"
    by (intro sub_lines_id) (simp add: numbered_quiet q')
  have hr: "sub_lines hrule ?t = ?t"
    by (intro sub_lines_id) (simp add: hrule_quiet q')
  have t: "regex_sub table_match ?t = ?t"
    using b' by (intro regex_sub_id table_match_None) auto
  have l: "regex_sub link_match ?t = ?t"
    using b' by (intro regex_sub_id link_match_None) auto
  show ?thesis
    unfolding clean_content_def Let_def line_breaks_def
    by (simp add: h sp w r r0 n hr t l D u_simps)
qed

lemma find_sub_None: "hd d \<notin> set s \<Longrightarrow> d \<noteq> [] \<Longrightarrow> find_sub d s = None"
  by (cases d; induction s) (auto simp: prefix_def)

lemma no_backtick_inline: "96 \<notin> set s \<Longrightarrow> regex_sub inline_code_match s = s"
  by (intro regex_sub_id inline_code_match_None) auto

lemma no_backtick_block: "96 \<notin> set s \<Longrightarrow> regex_sub code_block_match s = s"
  by (intro regex_sub_id code_block_match_None) auto

lemma py_replace_id: "hd old \<notin> set s \<Longrightarrow> py_replace old new s = s"
  unfolding py_replace_def
  by (cases old; rule regex_sub_id) (auto simp: prefix_def)

lemma line_breaks_id: "10 \<notin> set s \<Longrightarrow> line_breaks s = s"
  by (simp add: line_breaks_def py_replace_id)

lemma takeWhile_run: "96 \<notin> set b \<Longrightarrow> takeWhile (\<lambda>x. x \<noteq> 96) (b @ 96 # r) = b"
  by (induction b) auto

lemma takeWhile_all: "96 \<notin> set b \<Longrightarrow> takeWhile (\<lambda>x. x \<noteq> (96::nat)) b = b"
  by (induction b) auto


lemma open_fence_inline:
  assumes "96 \<notin> set s"
  shows "regex_sub inline_code_match (u ''```'' @ s) = u ''```'' @ s"
  using assms
  by (simp add: u_simps inline_code_match_def Let_def takeWhile_all no_backtick_inline)

lemma open_fence_block:
  assumes "96 \<notin> set s"
  shows "regex_sub code_block_match (u ''```'' @ s) = u ''```'' @ s"
proof -
  have "\<not> prefix [96] s" using assms by (auto simp: prefix_def)
  then show ?thesis using assms
    by (cases s) (simp_all add: u_simps code_block_match_def find_sub_None no_backtick_block)
qed

lemma no_inline_append: "no_inline (a @ b) \<longleftrightarrow> no_inline a \<and> no_inline b"
  by (simp add: no_inline_def)

lemma open_fence:
  assumes "quiet_lines s" "no_inline s" "96 \<notin> set s"
  shows "clean_content (u ''```'' @ s) = line_breaks (u ''```'' @ s)"
proof -
  have q: "quiet_lines (u ''```'' @ s)"
    using quiet_lines_wrap[of s "u ''```''" "[]"] assms(1)
    by (simp add: u_simps starts_quiet_def py_isdecimal_def decimal_zeros_def)
  have n: "no_inline (u ''```'' @ s)"
    using assms(2) by (simp add: no_inline_append) (simp add: no_inline_def u_simps)
  show ?thesis
    by (rule clean_content_quiet[OF q n open_fence_inline[OF assms(3)] open_fence_block[OF assms(3)]])
qed

lemma closed_fence_inline:
  assumes "b \<noteq> []" "96 \<notin> set b"
  shows "regex_sub inline_code_match (u ''```'' @ b @ u ''```'')
           = u ''``<font face=\"Courier\">'' @ b @ u ''</font>``''"
proof -
  have 1: "takeWhile (\<lambda>x. x \<noteq> 96) (b @ [96, 96, 96]) = b"
    using takeWhile_run[OF assms(2), of "[96, 96]"] by simp
  show ?thesis
    using assms(1)
    by (simp add: u_simps inline_code_match_def Let_def 1)
qed

lemma closed_fence_block:
  assumes "96 \<notin> set b"
  shows "regex_sub code_block_match (u ''``<font face=\"Courier\">'' @ b @ u ''</font>``'')
           = u ''``<font face=\"Courier\">'' @ b @ u ''</font>``''"
proof -
  have t: "regex_sub code_block_match (b @ u ''</font>``'') = b @ u ''</font>``''"
    using assms
    by (subst regex_sub_append_id) (auto simp: code_block_match_None u_simps code_block_match_def)
  show ?thesis
    using t by (simp add: u_simps code_block_match_def)
qed

lemma closed_fence:
  assumes "b \<noteq> []" "96 \<notin> set b" "quiet_lines b" "no_inline b"
  shows "clean_content (u ''```'' @ b @ u ''```'')
           = line_breaks (u ''``<font face=\"Courier\">'' @ b @ u ''</font>``'')"
proof -
  have q: "quiet_lines (u ''```'' @ b @ u ''```'')"
    using quiet_lines_wrap[of b "u ''```''" "u ''```''"] assms(3)
    by (simp add: u_simps starts_quiet_def py_isdecimal_def decimal_zeros_def)
  have n: "no_inline (u ''```'' @ b @ u ''```'')"
    using assms(4) by (simp add: no_inline_append) (simp add: no_inline_def u_simps)
  have q': "quiet_lines (u ''``<font face=\"Courier\">'' @ b @ u ''</font>``'')"
    using quiet_lines_wrap[of b "u ''``<font face=\"Courier\">''" "u ''</font>``''"] assms(3)
    by (simp add: u_simps starts_quiet_def py_isdecimal_def decimal_zeros_def)
  have n': "no_inline (u ''``<font face=\"Courier\">'' @ b @ u ''</font>``'')"
    using assms(4) by (simp add: no_inline_append) (simp add: no_inline_def u_simps)
  have i: "regex_sub inline_code_match (u ''```'' @ b @ u ''```'')
             = u ''``<font face=\"Courier\">'' @ b @ u ''</font>``''"
    by (rule closed_fence_inline[OF assms(1,2)])
  show ?thesis
    using clean_content_pipeline[OF q n] q' n' closed_fence_block[OF assms(2)]
    by (simp add: i)
qed

lemma py_replace_fences:
  assumes "96 \<notin> set b"
  shows "py_replace (u ''```'') [] (u ''```'' @ b @ u ''```'') = b"
proof -
  let ?m = "\<lambda>t. if u ''```'' \<noteq> [] \<and> prefix (u ''```'') t then Some (length (u ''```''), []) else None"
  have "regex_sub ?m (b @ u ''```'') = b @ regex_sub ?m (u ''```'')"
    using assms by (intro regex_sub_append_id) (auto simp: u_simps prefix_def)
  then show ?thesis
    unfolding py_replace_def by (simp add: u_simps)
qed

lemma replace_code_block_cap:
  assumes "96 \<notin> set b"
  shows "replace_code_block (u ''```'' @ b @ u ''```'')
           = u ''<font face=\"Courier\" size=\"9\">''
             @ (if length (py_strip b) > 100 then take 100 (py_strip b) @ u ''...'' else py_strip b)
             @ u ''</font>''"
  by (simp add: replace_code_block_def Let_def py_replace_fences[OF assms])

















lemma py_strip_id:
  "s \<noteq> [] \<Longrightarrow> \<not> py_isspace (hd s) \<Longrightarrow> \<not> py_isspace (last s) \<Longrightarrow> py_strip s = s"
proof -
  assume s: "s \<noteq> []" and h: "\<not> py_isspace (hd s)" and l: "\<not> py_isspace (last s)"
  from s h have 1: "dropWhile py_isspace s = s" by (cases s) auto
  from s l have 2: "dropWhile py_isspace (rev s) = rev s"
    by (cases "rev s") (auto simp: last_rev hd_rev)
  show ?thesis by (simp add: py_strip_def 1 2)
qed

lemmas eval_defs = clean_content_def Let_def sub_lines_def heading_def wrap_line_def
  span_match_def inline_code_match_def replace_prefix_def bullet_def numbered_def
  code_block_match_def table_match_def hrule_def link_match_def py_replace_def
  py_isdecimal_def decimal_zeros_def u_simps






text \<open>
  Claim C9 against the code. \<^verbatim>\<open>replace_code_block\<close>, given a fenced block, keeps at most
  100 characters of the stripped code and puts three dots behind them. But
  \<^verbatim>\<open>clean_content\<close> does not reach it for a fenced block whose code is not empty and holds
  no backquote (and, so that no other substitution interferes, whose lines start quietly
  and hold none of \<^verbatim>\<open>*\<close>, \<^verbatim>\<open>~\<close>, \<^verbatim>\<open>|\<close>, \<^verbatim>\<open>[\<close>): the substitution for inline code runs first
  and takes the last backquote of the opening fence, the code and the first backquote of
  the closing fence for an inline code span. The code comes out whole, however long,
  between two pairs of backquotes, and what is left holds no fence.
\<close>

theorem fenced_code_block_not_truncated:
  assumes "b \<noteq> []" and "96 \<notin> set b" and "quiet_lines b" and "no_inline b"
  shows "clean_content (u ''```'' @ b @ u ''```'')
           = line_breaks (u ''``<font face=\"Courier\">'' @ b @ u ''</font>``'')
         \<and> replace_code_block (u ''```'' @ b @ u ''```'')
           = u ''<font face=\"Courier\" size=\"9\">''
             @ (if length (py_strip b) > 100 then take 100 (py_strip b) @ u ''...''
                else py_strip b)
             @ u ''</font>''"
  using closed_fence[OF assms] replace_code_block_cap[OF assms(2)] by simp

theorem fenced_code_block_not_truncated_witness:
  "clean_content (u ''```'' @ replicate 101 97 @ u ''```'')
     = u ''``<font face=\"Courier\">'' @ replicate 101 97 @ u ''</font>``''
   \<and> replace_code_block (u ''```'' @ replicate 101 97 @ u ''```'')
     = u ''<font face=\"Courier\" size=\"9\">'' @ replicate 100 97 @ u ''...</font>''
   \<and> clean_content (u ''```'' @ ([10] @ u ''print(1)'' @ [10]) @ u ''```'')
     = u ''``<font face=\"Courier\"><br/>print(1)<br/></font>``''"
proof -
  let ?b = "replicate 101 (97::nat)"
  let ?c = "[10] @ u ''print(1)'' @ [10]"
  have b: "?b \<noteq> []" "96 \<notin> set ?b" "no_inline ?b" "10 \<notin> set ?b"
    by (simp_all add: no_inline_def list_all_iff)
  have h: "?b = 97 # replicate 100 97"
    using replicate_Suc[of 100 "97::nat"] by simp
  have "starts_quiet ?b"
    unfolding h by (simp add: starts_quiet_def py_isdecimal_def decimal_zeros_def)
  then have q: "quiet_lines ?b"
    by (simp add: quiet_lines_def split_no_newline)
  have s: "py_strip ?b = ?b"
    by (rule py_strip_id) (simp_all add: py_isspace_def)
  have l: "line_breaks (u ''``<font face=\"Courier\">'' @ ?b @ u ''</font>``'')
             = u ''``<font face=\"Courier\">'' @ ?b @ u ''</font>``''"
    by (rule line_breaks_id) (simp add: u_simps)
  have c: "?c \<noteq> []" "96 \<notin> set ?c" "no_inline ?c" "quiet_lines ?c"
    by (simp_all add: quiet_lines_def no_inline_def starts_quiet_def py_isdecimal_def
        decimal_zeros_def u_simps)
  have l': "line_breaks (u ''``<font face=\"Courier\">'' @ ?c @ u ''</font>``'')
             = u ''``<font face=\"Courier\"><br/>print(1)<br/></font>``''"
    by (simp add: line_breaks_def py_replace_def u_simps)
  show ?thesis
    using fenced_code_block_not_truncated [OF b(1,2) q b(3)]
      fenced_code_block_not_truncated [OF c(1,2,4,3)]
    unfolding s l l' by (simp add: u_def)
qed

section \<open>Properties of the document assembler\<close>

lemma and_then_simps [simp]:
  "and_then (Inl e) f = Inl e" "and_then (Inr v) f = f v"
  by (simp_all add: and_then_def)

lemma u_append: "u a @ u b = u (a @ b)"
  by (simp add: u_def)

lemma generate_error_pdf_result:
  assumes "markup_ok be (u ''PDF Generation Error'')" and "markup_ok be msg"
  shows "generate_error_pdf be msg
           = Inr (case build be (SimpleDocTemplate None) (error_story msg) of
                    Inr pdf \<Rightarrow> pdf | Inl e \<Rightarrow> [])"
  using assms
  by (simp add: generate_error_pdf_def Paragraph_def error_story_def split: sum.split)

lemma backend_sel:
  "markup_ok failing_backend = (\<lambda>t. True)"
  "isoformat_strftime failing_backend = (\<lambda>s fmt. Inr s)"
  "build failing_backend = (\<lambda>d story. Inl OSError)"
  "markup_ok short_backend = (\<lambda>t. True)"
  "isoformat_strftime short_backend = (\<lambda>s fmt. Inr s)"
  "build short_backend
     = (\<lambda>d story. if length story \<le> 3 then Inr (map byte_of story) else Inl OSError)"
  "markup_ok simple_backend = (\<lambda>t. True)"
  "isoformat_strftime simple_backend = (\<lambda>s fmt. Inr s)"
  "build simple_backend = (\<lambda>d story. Inr (map byte_of story))"
  by (simp_all add: failing_backend_def short_backend_def simple_backend_def)

lemma body_flowables_accepting:
  "markup_ok be = (\<lambda>t. True) \<Longrightarrow>
   body_flowables be ps = Inr (concat (map (\<lambda>p. [Para p CustomBody, Spacer 1 6]) ps))"
  by (induction ps) (simp_all add: Paragraph_def)

lemma single_note_story_accepting:
  assumes "markup_ok be = (\<lambda>t. True)" and "isoformat_strftime be = (\<lambda>s fmt. Inr s)"
  shows "single_note_story be note
           = Inr ([Para (title note) CustomTitle, Spacer 1 12,
                   Para (meta_text note (created_at note) (updated_at note)) MetaData,
                   Spacer 1 12, Para (replicate 50 9472) Separator]
                  @ concat (map (\<lambda>p. [Para p CustomBody, Spacer 1 6])
                       (content_paragraphs (content note))))"
  using assms by (simp add: single_note_story_def Paragraph_def body_flowables_accepting)

lemma toc_entries_accepting:
  assumes "markup_ok be = (\<lambda>t. True)" and "isoformat_strftime be = (\<lambda>s fmt. Inr s)"
  shows "\<exists>toc. toc_entries be i ns = Inr toc \<and> length toc = length ns"
  using assms
proof (induction ns arbitrary: i)
  case Nil
  then show ?case by simp
next
  case (Cons x rest)
  then obtain toc where t: "toc_entries be (Suc i) rest = Inr toc" "length toc = length rest"
    by blast
  show ?case
    using Cons.prems t by (simp add: Paragraph_def)
qed

lemma note_sections_accepting:
  assumes "markup_ok be = (\<lambda>t. True)" and "isoformat_strftime be = (\<lambda>s fmt. Inr s)"
  shows "\<exists>secs. note_sections be n i ns = Inr secs \<and> 4 * length ns \<le> length secs"
  using assms
proof (induction ns arbitrary: i)
  case Nil
  then show ?case by simp
next
  case (Cons x rest)
  then obtain secs where s: "note_sections be n (Suc i) rest = Inr secs"
    "4 * length rest \<le> length secs" by blast
  show ?case
    using Cons.prems s by (simp add: Paragraph_def body_flowables_accepting)
qed

lemma all_notes_story_accepting:
  assumes "markup_ok be = (\<lambda>t. True)" and "isoformat_strftime be = (\<lambda>s fmt. Inr s)"
  shows "\<exists>story. all_notes_story be ns = Inr story \<and> 9 \<le> length story"
proof -
  obtain toc where t: "toc_entries be 1 ns = Inr toc"
    using toc_entries_accepting[OF assms] by blast
  obtain secs where s: "note_sections be (length ns) 1 ns = Inr secs"
    using note_sections_accepting[OF assms] by blast
  show ?thesis
    using assms t s by (simp add: all_notes_story_def Paragraph_def)
qed

text \<open>
  Claim C3, as the code has it. Once the story of a note (of a list of notes) has been
  put together, and given that the layout library accepts the fixed error title and the
  two fixed error messages as paragraphs, both exports return bytes and raise nothing:
  the bytes of the built story when the build succeeds; when it fails, the bytes of the
  fallback document (the fixed title \<^verbatim>\<open>PDF Generation Error\<close>, a spacer and the fixed
  message of the export) if that one builds, and the empty byte string if it does not.
\<close>

theorem export_returns_bytes:
  assumes "markup_ok be (u ''PDF Generation Error'')"
    and "markup_ok be (u ''Error generating PDF'')"
    and "markup_ok be (u ''Error generating notes collection PDF'')"
  shows "(single_note_story be note = Inr story \<longrightarrow>
            generate_single_note_pdf be note
              = Inr (case build be (SimpleDocTemplate (Some 72)) story of
                       Inr pdf \<Rightarrow> pdf
                     | Inl e \<Rightarrow>
                         (case build be (SimpleDocTemplate None)
                                 (error_story (u ''Error generating PDF'')) of
                            Inr pdf \<Rightarrow> pdf | Inl e' \<Rightarrow> [])))
       \<and> (all_notes_story be notes = Inr stories \<longrightarrow>
            generate_all_notes_pdf be notes
              = Inr (case build be (SimpleDocTemplate (Some 72)) stories of
                       Inr pdf \<Rightarrow> pdf
                     | Inl e \<Rightarrow>
                         (case build be (SimpleDocTemplate None)
                                 (error_story (u ''Error generating notes collection PDF'')) of
                            Inr pdf \<Rightarrow> pdf | Inl e' \<Rightarrow> [])))"
  using generate_error_pdf_result[OF assms(1,2)] generate_error_pdf_result[OF assms(1,3)]
  by (simp add: generate_single_note_pdf_def generate_all_notes_pdf_def split: sum.split)

theorem export_returns_bytes_witness:
  "generate_single_note_pdf short_backend n1 = Inr [20, 12, 20]
   \<and> generate_all_notes_pdf short_backend [n1, n2] = Inr [20, 12, 37]
   \<and> generate_single_note_pdf simple_backend n1 = Inr [8, 12, 28, 12, 50, 9, 6]"
proof -
  have p: "content_paragraphs (u ''say hello'') = [u ''say hello'']"
    unfolding content_paragraphs_def
    by (simp add: eval_defs py_strip_def py_isspace_def)
  have s: "single_note_story short_backend n1
             = Inr [Para (u ''Greeting'') CustomTitle, Spacer 1 12,
                    Para (u ''Created: 2024-01-01T10:00:00'') MetaData, Spacer 1 12,
                    Para (replicate 50 9472) Separator,
                    Para (u ''say hello'') CustomBody, Spacer 1 6]"
    by (simp add: single_note_story_accepting backend_sel p meta_text_def n1_sel u_append)
  have s': "single_note_story simple_backend n1
             = Inr [Para (u ''Greeting'') CustomTitle, Spacer 1 12,
                    Para (u ''Created: 2024-01-01T10:00:00'') MetaData, Spacer 1 12,
                    Para (replicate 50 9472) Separator,
                    Para (u ''say hello'') CustomBody, Spacer 1 6]"
    by (simp add: single_note_story_accepting backend_sel p meta_text_def n1_sel u_append)
  obtain stories where a: "all_notes_story short_backend [n1, n2] = Inr stories"
    "9 \<le> length stories"
    using all_notes_story_accepting[of short_backend "[n1, n2]"] by (auto simp: backend_sel)
  show ?thesis
    using export_returns_bytes [of short_backend n1 _ "[n1, n2]" stories, OF _ _ _]
      export_returns_bytes [of simple_backend n1 _ "[n1, n2]"] s s' a
    by (simp add: backend_sel error_story_def byte_of_def u_simps)
qed

text \<open>
  Claim C3 as stated fails: with a layout library whose build raises for every story,
  the fallback document cannot be built either, and both exports return the empty byte
  string, which is no document and holds neither the error title nor a message.
\<close>

theorem export_returns_no_document:
  "generate_single_note_pdf failing_backend n1 = Inr []
   \<and> generate_all_notes_pdf failing_backend [n1, n2] = Inr []
   \<and> generate_error_pdf failing_backend (u ''Error generating PDF'') = Inr []"
proof -
  obtain story where s: "single_note_story failing_backend n1 = Inr story"
    by (simp add: single_note_story_accepting backend_sel)
  obtain stories where a: "all_notes_story failing_backend [n1, n2] = Inr stories"
    using all_notes_story_accepting[of failing_backend "[n1, n2]"] by (auto simp: backend_sel)
  have e: "generate_error_pdf failing_backend msg = Inr []" for msg
    by (simp add: generate_error_pdf_def Paragraph_def backend_sel)
  show ?thesis
    by (simp add: generate_single_note_pdf_def generate_all_notes_pdf_def s a e backend_sel)
qed

end
